theory Spec2Isabelle
  imports Main "HOL-Library.Word"
begin

section \<open>JavaScript values\<close>

text \<open>
  A JavaScript string is a sequence of UTF-16 code units, a \<open>Uint8Array\<close> a sequence of
  bytes. A value that may be \<open>null\<close> is an \<open>option\<close>.
\<close>

type_synonym jsstring = "16 word list"

type_synonym bytes = "8 word list"

definition js :: "string \<Rightarrow> jsstring" where
  \<comment> \<open>a string literal of the source (ASCII)\<close>
  "js s = map (\<lambda>c. of_nat (of_char c)) s"

definition truthy :: "jsstring option \<Rightarrow> bool" where
  \<comment> \<open>\<open>null\<close> and the empty string are falsy, every other string is truthy\<close>
  "truthy v = (case v of None \<Rightarrow> False | Some s \<Rightarrow> s \<noteq> [])"

definition orElse :: "jsstring option \<Rightarrow> jsstring \<Rightarrow> jsstring" where
  \<comment> \<open>\<open>v || d\<close> for a nullable string \<open>v\<close> and a string \<open>d\<close>\<close>
  "orElse v d = (case v of None \<Rightarrow> d | Some s \<Rightarrow> if s = [] then d else s)"

definition toDOMString :: "jsstring option \<Rightarrow> jsstring" where
  \<comment> \<open>the conversion of an argument to a \<open>DOMString\<close> parameter: \<open>null\<close> becomes "null"\<close>
  "toDOMString v = (case v of None \<Rightarrow> js ''null'' | Some s \<Rightarrow> s)"

datatype error =
  InvalidCharacterError
  | OperationError
  | NetworkError
  | FileReadError

section \<open>Base64: \<open>btoa\<close>, \<open>atob\<close>, \<open>b64e\<close>, \<open>b64d\<close>\<close>

definition b64char :: "nat \<Rightarrow> nat" where
  "b64char i =
     (if i < 26 then 65 + i
      else if i < 52 then 71 + i
      else if i < 62 then i - 4
      else if i = 62 then 43
      else 47)"

definition b64idx :: "nat \<Rightarrow> nat option" where
  "b64idx c =
     (if 65 \<le> c \<and> c \<le> 90 then Some (c - 65)
      else if 97 \<le> c \<and> c \<le> 122 then Some (c - 71)
      else if 48 \<le> c \<and> c \<le> 57 then Some (c + 4)
      else if c = 43 then Some 62
      else if c = 47 then Some 63
      else None)"

fun btoa_units :: "nat list \<Rightarrow> nat list" where
  "btoa_units [] = []"
| "btoa_units [a] = [b64char (a div 4), b64char ((a mod 4) * 16), 61, 61]"
| "btoa_units [a, b] =
     [b64char (a div 4), b64char ((a mod 4) * 16 + b div 16), b64char ((b mod 16) * 4), 61]"
| "btoa_units (a # b # c # r) =
     [b64char (a div 4), b64char ((a mod 4) * 16 + b div 16),
      b64char ((b mod 16) * 4 + c div 64), b64char (c mod 64)] @ btoa_units r"

definition b64e :: "bytes \<Rightarrow> jsstring" where
  \<comment> \<open>\<open>String.fromCharCode\<close> of every byte, then \<open>btoa\<close>\<close>
  "b64e buf = map of_nat (btoa_units (map unat buf))"

definition ascii_whitespace :: "nat \<Rightarrow> bool" where
  "ascii_whitespace c = (c = 9 \<or> c = 10 \<or> c = 12 \<or> c = 13 \<or> c = 32)"

definition strip_padding :: "nat list \<Rightarrow> nat list" where
  \<comment> \<open>when the length is a multiple of 4, one or two trailing \<open>=\<close> are removed\<close>
  "strip_padding d =
     (if length d mod 4 = 0 \<and> d \<noteq> [] \<and> last d = 61
      then (if butlast d \<noteq> [] \<and> last (butlast d) = 61 then butlast (butlast d) else butlast d)
      else d)"

fun sextets_bytes :: "nat list \<Rightarrow> nat list" where
  "sextets_bytes (a # b # c # d # r) =
     [a * 4 + b div 16, (b mod 16) * 16 + c div 4, (c mod 4) * 64 + d] @ sextets_bytes r"
| "sextets_bytes [a, b, c] = [a * 4 + b div 16, (b mod 16) * 16 + c div 4]"
| "sextets_bytes [a, b] = [a * 4 + b div 16]"
| "sextets_bytes _ = []"

definition atob_units :: "nat list \<Rightarrow> error + nat list" where
  \<comment> \<open>the forgiving-base64 decode of \<open>atob\<close>\<close>
  "atob_units s =
     (let d = strip_padding (filter (\<lambda>c. \<not> ascii_whitespace c) s) in
      if length d mod 4 = 1 then Inl InvalidCharacterError
      else if list_ex (\<lambda>c. b64idx c = None) d then Inl InvalidCharacterError
      else Inr (sextets_bytes (map (\<lambda>c. the (b64idx c)) d)))"

definition b64d :: "jsstring option \<Rightarrow> error + bytes" where
  \<comment> \<open>\<open>atob\<close>, then \<open>charCodeAt\<close> of every character into a \<open>Uint8Array\<close>\<close>
  "b64d b64 =
     (case atob_units (map unat (toDOMString b64)) of
        Inl e \<Rightarrow> Inl e
      | Inr str \<Rightarrow> Inr (map of_nat str))"

section \<open>UTF-8: \<open>TextEncoder\<close> and \<open>TextDecoder\<close>\<close>

text \<open>
  \<open>new TextEncoder().encode(s)\<close> first converts \<open>s\<close> to a sequence of scalar values, an
  unpaired surrogate becoming U+FFFD, and writes each as UTF-8. \<open>new TextDecoder().decode(b)\<close>
  (UTF-8, not fatal, \<open>ignoreBOM\<close> false) drops one leading byte order mark, runs the
  UTF-8 decoder, which emits U+FFFD for every ill-formed sequence, and returns the code
  points as UTF-16.
\<close>

definition is_high :: "nat \<Rightarrow> bool" where
  "is_high u = (55296 \<le> u \<and> u \<le> 56319)"

definition is_low :: "nat \<Rightarrow> bool" where
  "is_low u = (56320 \<le> u \<and> u \<le> 57343)"

fun scalars :: "nat list \<Rightarrow> nat list" where
  "scalars [] = []"
| "scalars [u] = (if is_high u \<or> is_low u then [65533] else [u])"
| "scalars (u # v # r) =
     (if is_high u \<and> is_low v then (65536 + (u - 55296) * 1024 + (v - 56320)) # scalars r
      else if is_high u \<or> is_low u then 65533 # scalars (v # r)
      else u # scalars (v # r))"

definition utf8_bytes :: "nat \<Rightarrow> nat list" where
  "utf8_bytes cp =
     (if cp < 128 then [cp]
      else if cp < 2048 then [192 + cp div 64, 128 + cp mod 64]
      else if cp < 65536 then [224 + cp div 4096, 128 + cp div 64 mod 64, 128 + cp mod 64]
      else [240 + cp div 262144, 128 + cp div 4096 mod 64, 128 + cp div 64 mod 64,
            128 + cp mod 64])"

definition te_encode :: "jsstring \<Rightarrow> bytes" where
  "te_encode s = map of_nat (concat (map utf8_bytes (scalars (map unat s))))"

type_synonym utf8_state = "nat \<times> nat \<times> nat \<times> nat \<times> nat"

definition utf8_init :: utf8_state where
  \<comment> \<open>bytes needed, bytes seen, code point, lower boundary, upper boundary\<close>
  "utf8_init = (0, 0, 0, 128, 191)"

fun utf8_run :: "utf8_state \<Rightarrow> nat list \<Rightarrow> nat list" where
  "utf8_run (needed, seen, cp, lo, hi) [] = (if needed \<noteq> 0 then [65533] else [])"
| "utf8_run (needed, seen, cp, lo, hi) (b # bs) =
     (if needed = 0 then
        (if b < 128 then b # utf8_run utf8_init bs
         else if 194 \<le> b \<and> b \<le> 223 then utf8_run (1, 0, b mod 32, 128, 191) bs
         else if 224 \<le> b \<and> b \<le> 239 then
           utf8_run (2, 0, b mod 16, if b = 224 then 160 else 128, if b = 237 then 159 else 191) bs
         else if 240 \<le> b \<and> b \<le> 244 then
           utf8_run (3, 0, b mod 8, if b = 240 then 144 else 128, if b = 244 then 143 else 191) bs
         else 65533 # utf8_run utf8_init bs)
      else if \<not> (lo \<le> b \<and> b \<le> hi) then 65533 # utf8_run (0, 0, 0, 128, 191) (b # bs)
      else if seen + 1 \<noteq> needed then utf8_run (needed, seen + 1, cp * 64 + b mod 64, 128, 191) bs
      else (cp * 64 + b mod 64) # utf8_run utf8_init bs)"

definition utf16_units :: "nat \<Rightarrow> nat list" where
  "utf16_units cp =
     (if cp < 65536 then [cp]
      else [55296 + (cp - 65536) div 1024, 56320 + (cp - 65536) mod 1024])"

definition td_decode :: "bytes \<Rightarrow> jsstring" where
  "td_decode buf =
     (let bs = map unat buf;
          bs' = (if take 3 bs = [239, 187, 191] then drop 3 bs else bs)
      in map of_nat (concat (map utf16_units (utf8_run utf8_init bs'))))"

fun well_formed :: "nat list \<Rightarrow> bool" where
  "well_formed [] = True"
| "well_formed [u] = (\<not> is_high u \<and> \<not> is_low u)"
| "well_formed (u # v # r) =
     (if is_high u then is_low v \<and> well_formed r else \<not> is_low u \<and> well_formed (v # r))"

definition isWellFormed :: "jsstring \<Rightarrow> bool" where
  \<comment> \<open>\<open>String.prototype.isWellFormed\<close>: no unpaired surrogate\<close>
  "isWellFormed s = well_formed (map unat s)"

section \<open>The browser: Web Crypto, local storage, randomness\<close>

text \<open>
  The primitives of \<open>crypto.subtle\<close> are parameters of the model. A \<open>CryptoKey\<close> is the
  byte string of its key material. \<open>aes_gcm_decrypt\<close> is \<open>None\<close> where the platform
  rejects with an \<open>OperationError\<close>.
\<close>

record webcrypto =
  hkdf_sha256 :: "bytes \<Rightarrow> bytes \<Rightarrow> bytes \<Rightarrow> bytes"
  pbkdf2_sha256 :: "bytes \<Rightarrow> bytes \<Rightarrow> nat \<Rightarrow> bytes"
  aes_gcm_encrypt :: "bytes \<Rightarrow> bytes \<Rightarrow> bytes \<Rightarrow> bytes"
  aes_gcm_decrypt :: "bytes \<Rightarrow> bytes \<Rightarrow> bytes \<Rightarrow> bytes option"

definition aead_correct :: "webcrypto \<Rightarrow> bool" where
  \<comment> \<open>what AES-GCM guarantees: decryption under the same key and nonce returns the
      plaintext, and the ciphertext is the plaintext's length plus the 16-byte tag\<close>
  "aead_correct wc =
     (\<forall>k iv p. aes_gcm_decrypt wc k iv (aes_gcm_encrypt wc k iv p) = Some p
        \<and> length (aes_gcm_encrypt wc k iv p) = length p + 16)"

record local_storage =
  auth_token :: "jsstring option"
  company_id :: "jsstring option"
  chat_master_key :: "jsstring option"

record world =
  storage :: local_storage
  entropy :: "nat \<Rightarrow> 8 word"
  drawn :: nat

definition getRandomValues :: "nat \<Rightarrow> world \<Rightarrow> bytes \<times> world" where
  \<comment> \<open>\<open>crypto.getRandomValues(new Uint8Array(n))\<close>: the next \<open>n\<close> bytes of the generator\<close>
  "getRandomValues n w = (map (entropy w) [drawn w ..< drawn w + n], w\<lparr>drawn := drawn w + n\<rparr>)"

definition setMasterKey :: "jsstring \<Rightarrow> world \<Rightarrow> world" where
  \<comment> \<open>\<open>localStorage.setItem('chat_master_key', keyB64)\<close>\<close>
  "setMasterKey keyB64 w = w\<lparr>storage := (storage w)\<lparr>chat_master_key := Some keyB64\<rparr>\<rparr>"

section \<open>ChatModal: client-side crypto helpers\<close>

text \<open>
  The helpers are the same in both versions of the component. \<open>companyId\<close> is read from
  local storage once, when the component mounts; \<open>profileId\<close> is a prop.
\<close>

record chat_modal =
  profileId :: jsstring
  companyId :: "jsstring option"

definition ensureMasterKey :: "chat_modal \<Rightarrow> world \<Rightarrow> jsstring option \<times> world" where
  "ensureMasterKey cm w =
     (if \<not> truthy (companyId cm) then (None, w)
      else if truthy (chat_master_key (storage w)) then (chat_master_key (storage w), w)
      else
        (let (raw, w1) = getRandomValues 32 w;
             keyB64 = b64e raw
         in (Some keyB64, setMasterKey keyB64 w1)))"

definition mk_salt :: bytes where
  "mk_salt = te_encode (js ''mk_salt_v1'')"

definition profileInfo :: "chat_modal \<Rightarrow> jsstring \<Rightarrow> jsstring" where
  \<comment> \<open>the template \<open>company:${companyId || 'default'}|profile:${pid}\<close>\<close>
  "profileInfo cm pid =
     js ''company:'' @ orElse (companyId cm) (js ''default'') @ js ''|profile:'' @ pid"

definition deriveProfileKey ::
  "webcrypto \<Rightarrow> chat_modal \<Rightarrow> jsstring option \<Rightarrow> jsstring \<Rightarrow> error + bytes" where
  "deriveProfileKey wc cm masterB64 pid =
     (case b64d masterB64 of
        Inl e \<Rightarrow> Inl e
      | Inr raw \<Rightarrow> Inr (hkdf_sha256 wc raw mk_salt (te_encode (profileInfo cm pid))))"

record encrypted_payload =
  content_enc :: jsstring
  content_nonce :: jsstring
  content_salt :: jsstring

definition encryptWithProfile ::
  "webcrypto \<Rightarrow> chat_modal \<Rightarrow> jsstring \<Rightarrow> world \<Rightarrow> (error + encrypted_payload) \<times> world" where
  "encryptWithProfile wc cm text w =
     (let (keyB64, w1) = ensureMasterKey cm w in
      case deriveProfileKey wc cm keyB64 (profileId cm) of
        Inl e \<Rightarrow> (Inl e, w1)
      | Inr key \<Rightarrow>
          (let (iv, w2) = getRandomValues 12 w1;
               ct = aes_gcm_encrypt wc key iv (te_encode text)
           in (Inr \<lparr>content_enc = b64e ct, content_nonce = b64e iv, content_salt = b64e mk_salt\<rparr>,
               w2)))"

definition decryptWithProfile ::
  "webcrypto \<Rightarrow> chat_modal \<Rightarrow> jsstring option \<Rightarrow> jsstring option \<Rightarrow> world
     \<Rightarrow> (error + jsstring option) \<times> world" where
  \<comment> \<open>\<open>Inr None\<close> is the \<open>null\<close> the function returns; \<open>Inl e\<close> is a rejection, which
      only the steps before the \<open>try\<close> can cause\<close>
  "decryptWithProfile wc cm enc nonce w =
     (if \<not> truthy enc \<or> \<not> truthy nonce then (Inr None, w)
      else
        (let (keyB64, w1) = ensureMasterKey cm w in
         case deriveProfileKey wc cm keyB64 (profileId cm) of
           Inl e \<Rightarrow> (Inl e, w1)
         | Inr key \<Rightarrow>
             (case b64d nonce of
                Inl _ \<Rightarrow> (Inr None, w1)
              | Inr iv \<Rightarrow>
                  (case b64d enc of
                     Inl _ \<Rightarrow> (Inr None, w1)
                   | Inr ct \<Rightarrow>
                       (case aes_gcm_decrypt wc key iv ct of
                          None \<Rightarrow> (Inr None, w1)
                        | Some pt \<Rightarrow> (Inr (Some (td_decode pt)), w1))))))"

definition validMasterKey :: "world \<Rightarrow> bool" where
  \<comment> \<open>the stored master key, as \<open>deriveProfileKey\<close> reads it, decodes\<close>
  "validMasterKey w =
     (case b64d (chat_master_key (storage w)) of Inl _ \<Rightarrow> False | Inr _ \<Rightarrow> True)"

section \<open>ChatModal: messages and server rows\<close>

datatype role = User | Assistant

record message =
  msg_id :: jsstring
  msg_role :: role
  msg_content :: jsstring
  msg_created_at :: "jsstring option"

text \<open>A message row of a server response: any of the content fields may be absent.\<close>

record row =
  row_id :: jsstring
  row_role :: role
  row_content :: "jsstring option"
  row_content_enc :: "jsstring option"
  row_content_nonce :: "jsstring option"
  row_created_at :: "jsstring option"

definition toMessage :: "row \<Rightarrow> jsstring \<Rightarrow> message" where
  \<comment> \<open>\<open>{ id: m.id, role: m.role, content: text, created_at: m.created_at }\<close>\<close>
  "toMessage r text =
     \<lparr>msg_id = row_id r, msg_role = row_role r, msg_content = text,
      msg_created_at = row_created_at r\<rparr>"

fun mapRows ::
  "(row \<Rightarrow> world \<Rightarrow> (error + jsstring) \<times> world) \<Rightarrow> row list \<Rightarrow> world
     \<Rightarrow> (error + message list) \<times> world" where
  \<comment> \<open>\<open>for (const row of rows) { ...; out.push({...}) }\<close>, a rejection ending the loop\<close>
  "mapRows f [] w = (Inr [], w)"
| "mapRows f (r # rs) w =
     (case f r w of
        (Inl e, w1) \<Rightarrow> (Inl e, w1)
      | (Inr text, w1) \<Rightarrow>
          (case mapRows f rs w1 of
             (Inl e, w2) \<Rightarrow> (Inl e, w2)
           | (Inr ms, w2) \<Rightarrow> (Inr (toMessage r text # ms), w2)))"

definition decryptRow ::
  "webcrypto \<Rightarrow> chat_modal \<Rightarrow> row \<Rightarrow> world \<Rightarrow> (error + jsstring) \<times> world" where
  \<comment> \<open>\<open>const dec = await decryptWithProfile(row.content_enc, row.content_nonce); text = dec || ''\<close>\<close>
  "decryptRow wc cm r w =
     (case decryptWithProfile wc cm (row_content_enc r) (row_content_nonce r) w of
        (Inl e, w1) \<Rightarrow> (Inl e, w1)
      | (Inr dec, w1) \<Rightarrow> (Inr (orElse dec []), w1))"

definition cachedContent :: "message list \<Rightarrow> jsstring \<Rightarrow> jsstring \<Rightarrow> jsstring" where
  \<comment> \<open>\<open>const prev = messages.find((p) => p.id === row.id); if (prev?.content) text = prev.content\<close>\<close>
  "cachedContent cache rid text =
     (case find (\<lambda>p. msg_id p = rid) cache of
        None \<Rightarrow> text
      | Some prev \<Rightarrow> if msg_content prev \<noteq> [] then msg_content prev else text)"

subsection \<open>History load\<close>

definition historyRowText_p1 ::
  "webcrypto \<Rightarrow> chat_modal \<Rightarrow> row \<Rightarrow> world \<Rightarrow> (error + jsstring) \<times> world" where
  \<comment> \<open>part_001, lines 120-125\<close>
  "historyRowText_p1 wc cm m w =
     (case (if truthy (row_content_enc m) \<and> truthy (row_content_nonce m)
            then decryptRow wc cm m w else (Inr [], w)) of
        (Inl e, w1) \<Rightarrow> (Inl e, w1)
      | (Inr text, w1) \<Rightarrow>
          (Inr (if text = [] then orElse (row_content m) [] else text), w1))"

definition historyRowText_p2 ::
  "webcrypto \<Rightarrow> chat_modal \<Rightarrow> row \<Rightarrow> world \<Rightarrow> (error + jsstring) \<times> world" where
  \<comment> \<open>part_002, lines 113-117\<close>
  "historyRowText_p2 wc cm m w =
     (let text = orElse (row_content m) [] in
      if text = [] \<and> truthy (row_content_enc m) \<and> truthy (row_content_nonce m)
      then decryptRow wc cm m w
      else (Inr text, w))"

subsection \<open>Edit reconciliation\<close>

definition editRowText_p1 ::
  "webcrypto \<Rightarrow> chat_modal \<Rightarrow> message list \<Rightarrow> row \<Rightarrow> world \<Rightarrow> (error + jsstring) \<times> world" where
  \<comment> \<open>part_001, lines 345-354 (and 298-308)\<close>
  "editRowText_p1 wc cm messages r w =
     (case (if truthy (row_content_enc r) \<and> truthy (row_content_nonce r)
            then decryptRow wc cm r w else (Inr [], w)) of
        (Inl e, w1) \<Rightarrow> (Inl e, w1)
      | (Inr text, w1) \<Rightarrow>
          (let text = (if text = [] then orElse (row_content r) [] else text);
               text = (if text = [] then cachedContent messages (row_id r) text else text)
           in (Inr text, w1)))"

definition editRowText_p2 ::
  "webcrypto \<Rightarrow> chat_modal \<Rightarrow> message list \<Rightarrow> row \<Rightarrow> world \<Rightarrow> (error + jsstring) \<times> world" where
  \<comment> \<open>part_002, lines 261-269 (and 215-224)\<close>
  "editRowText_p2 wc cm messages r w =
     (let text = orElse (row_content r) [] in
      case (if text = [] \<and> truthy (row_content_enc r) \<and> truthy (row_content_nonce r)
            then decryptRow wc cm r w else (Inr text, w)) of
        (Inl e, w1) \<Rightarrow> (Inl e, w1)
      | (Inr text, w1) \<Rightarrow>
          (Inr (if text = [] then cachedContent messages (row_id r) text else text), w1))"

section \<open>ChatModal: component state and handlers\<close>

record chat_state =
  threadId :: "jsstring option"
  messages :: "message list"
  input :: jsstring
  sending :: bool
  editingId :: "jsstring option"
  editText :: jsstring
  imageDataUrls :: "jsstring list"

record batch_item =
  item_id :: jsstring
  item_role :: role
  item_content :: jsstring
  item_created_at :: "jsstring option"

record encrypted_item =
  enc_id :: jsstring
  enc_profile_id :: jsstring
  enc_thread_id :: jsstring
  enc_role :: role
  enc_content_enc :: jsstring
  enc_content_nonce :: jsstring
  enc_content_salt :: jsstring
  enc_created_at :: "jsstring option"

text \<open>
  What a handler does besides updating the state: an alert, the best-effort request that
  stores encrypted copies, or a rejection that nothing catches.
\<close>

datatype effect =
  Alert jsstring
  | PostEncrypted jsstring "encrypted_item list"
  | Unhandled error

text \<open>
  The rest of the browser the handlers use: \<open>JSON.stringify({ text, images })\<close>,
  \<open>createThumbnail\<close> (the empty string when the image fails to load) and the
  \<open>message\<close> of a thrown platform error.
\<close>

record browser =
  stringify :: "jsstring \<Rightarrow> jsstring list \<Rightarrow> jsstring"
  createThumbnail :: "jsstring \<Rightarrow> jsstring"
  errorMessage :: "error \<Rightarrow> jsstring"

record clock =
  date_now :: nat
  iso_optimistic :: jsstring
  iso_encrypted :: jsstring

function decimal :: "nat \<Rightarrow> jsstring" where
  "decimal n = (if n < 10 then [of_nat (48 + n)] else decimal (n div 10) @ [of_nat (48 + n mod 10)])"
  by pat_completeness auto
termination
  by (relation "measure id") auto

declare decimal.simps [simp del]

definition js_whitespace :: "16 word \<Rightarrow> bool" where
  \<comment> \<open>the white space and line terminators that \<open>String.prototype.trim\<close> removes\<close>
  "js_whitespace c =
     (let n = unat c in
      (9 \<le> n \<and> n \<le> 13) \<or> n = 32 \<or> n = 160 \<or> n = 5760 \<or> (8192 \<le> n \<and> n \<le> 8202)
      \<or> n = 8232 \<or> n = 8233 \<or> n = 8239 \<or> n = 8287 \<or> n = 12288 \<or> n = 65279)"

definition trim :: "jsstring \<Rightarrow> jsstring" where
  "trim s = rev (dropWhile js_whitespace (rev (dropWhile js_whitespace s)))"

subsection \<open>Encrypted copies\<close>

fun encryptItems ::
  "webcrypto \<Rightarrow> chat_modal \<Rightarrow> jsstring \<Rightarrow> batch_item list \<Rightarrow> world
     \<Rightarrow> (error + encrypted_item list) \<times> world" where
  "encryptItems wc cm thread [] w = (Inr [], w)"
| "encryptItems wc cm thread (it # its) w =
     (case encryptWithProfile wc cm (item_content it) w of
        (Inl e, w1) \<Rightarrow> (Inl e, w1)
      | (Inr enc, w1) \<Rightarrow>
          (case encryptItems wc cm thread its w1 of
             (Inl e, w2) \<Rightarrow> (Inl e, w2)
           | (Inr payload, w2) \<Rightarrow>
               (Inr (\<lparr>enc_id = item_id it, enc_profile_id = profileId cm, enc_thread_id = thread,
                      enc_role = item_role it, enc_content_enc = content_enc enc,
                      enc_content_nonce = content_nonce enc, enc_content_salt = content_salt enc,
                      enc_created_at = item_created_at it\<rparr> # payload), w2)))"

definition saveEncryptedBatch ::
  "webcrypto \<Rightarrow> chat_modal \<Rightarrow> jsstring \<Rightarrow> batch_item list \<Rightarrow> world
     \<Rightarrow> (error + effect list) \<times> world" where
  \<comment> \<open>the request is best effort: its failure is swallowed\<close>
  "saveEncryptedBatch wc cm thread items w =
     (if items = [] then (Inr [], w)
      else
        (case encryptItems wc cm thread items w of
           (Inl e, w1) \<Rightarrow> (Inl e, w1)
         | (Inr payload, w1) \<Rightarrow> (Inr [PostEncrypted thread payload], w1)))"

definition toItem :: "message \<Rightarrow> batch_item" where
  "toItem m =
     \<lparr>item_id = msg_id m, item_role = msg_role m, item_content = msg_content m,
      item_created_at = msg_created_at m\<rparr>"

subsection \<open>History load\<close>

datatype 'a fetched = Rejected error | Fetched 'a

definition loadHistory ::
  "(row \<Rightarrow> world \<Rightarrow> (error + jsstring) \<times> world) \<Rightarrow> chat_modal
     \<Rightarrow> (jsstring option \<times> row list) fetched \<Rightarrow> jsstring option fetched
     \<Rightarrow> chat_state \<Rightarrow> world \<Rightarrow> chat_state \<times> world \<times> effect list" where
  \<comment> \<open>the effect that runs when the component mounts; \<open>hist\<close> is the history response
      (\<open>thread_id\<close>, \<open>messages || []\<close>), \<open>started\<close> the response of starting a thread\<close>
  "loadHistory rowText cm hist started s w =
     (let (_, w0) = ensureMasterKey cm w in
      case hist of
        Rejected e \<Rightarrow> (s, w0, [Unhandled e])
      | Fetched (tid, rows) \<Rightarrow>
          if truthy tid then
            (case mapRows rowText rows w0 of
               (Inl e, w1) \<Rightarrow> (s\<lparr>threadId := tid\<rparr>, w1, [Unhandled e])
             | (Inr mapped, w1) \<Rightarrow> (s\<lparr>threadId := tid, messages := mapped\<rparr>, w1, []))
          else
            (case started of
               Rejected e \<Rightarrow> (s, w0, [Unhandled e])
             | Fetched tid' \<Rightarrow> (s\<lparr>threadId := tid'\<rparr>, w0, [])))"

definition loadHistory_p1 ::
  "webcrypto \<Rightarrow> chat_modal \<Rightarrow> (jsstring option \<times> row list) fetched \<Rightarrow> jsstring option fetched
     \<Rightarrow> chat_state \<Rightarrow> world \<Rightarrow> chat_state \<times> world \<times> effect list" where
  "loadHistory_p1 wc cm = loadHistory (historyRowText_p1 wc cm) cm"

definition loadHistory_p2 ::
  "webcrypto \<Rightarrow> chat_modal \<Rightarrow> (jsstring option \<times> row list) fetched \<Rightarrow> jsstring option fetched
     \<Rightarrow> chat_state \<Rightarrow> world \<Rightarrow> chat_state \<times> world \<times> effect list" where
  "loadHistory_p2 wc cm = loadHistory (historyRowText_p2 wc cm) cm"

subsection \<open>Send\<close>

datatype send_response =
  SendRejected jsstring
  | SendNotOk "jsstring option"
  | SendOk "message list"

text \<open>
  \<open>SendRejected msg\<close>: the request or the parsing of its body threw an error with message
  \<open>msg\<close>; \<open>SendNotOk err\<close>: the response is not ok and \<open>data?.error\<close> is \<open>err\<close>;
  \<open>SendOk msgs\<close>: the response is ok and \<open>data.messages || []\<close> is \<open>msgs\<close>.
\<close>

definition tempIdOf :: "clock \<Rightarrow> jsstring" where
  \<comment> \<open>\<open>tmp_${Date.now()}\<close>\<close>
  "tempIdOf clk = js ''tmp_'' @ decimal (date_now clk)"

definition confirmSent :: "jsstring \<Rightarrow> message list \<Rightarrow> message list \<Rightarrow> message list" where
  \<comment> \<open>the state update on success: the temporary message is replaced by the server's user
      message, and the assistant's reply is appended\<close>
  "confirmSent tempId newMsgs prev =
     (let serverUser = find (\<lambda>m. msg_role m = User) newMsgs;
          serverAssistant = find (\<lambda>m. msg_role m = Assistant) newMsgs;
          next =
            map (\<lambda>m. case serverUser of
                       None \<Rightarrow> m
                     | Some u \<Rightarrow> if msg_id m = tempId then u else m) prev
      in case serverAssistant of None \<Rightarrow> next | Some a \<Rightarrow> next @ [a])"

definition revertSent :: "jsstring \<Rightarrow> message list \<Rightarrow> message list" where
  \<comment> \<open>the state update on failure: \<open>prev.filter(m => m.id !== tempId)\<close>\<close>
  "revertSent tempId prev = filter (\<lambda>m. msg_id m \<noteq> tempId) prev"

definition finishSend ::
  "jsstring \<Rightarrow> jsstring option \<times> chat_state \<times> world \<times> effect list
     \<Rightarrow> chat_state \<times> world \<times> effect list" where
  \<comment> \<open>\<open>catch\<close> and \<open>finally\<close>: the first component is the message of the error thrown in
      the \<open>try\<close> block, if any\<close>
  "finishSend tempId r =
     (case r of
        (None, s, w, fx) \<Rightarrow> (s\<lparr>sending := False\<rparr>, w, fx)
      | (Some msg, s, w, fx) \<Rightarrow>
          (s\<lparr>messages := revertSent tempId (messages s), sending := False\<rparr>, w, fx @ [Alert msg]))"

definition send_p1 ::
  "webcrypto \<Rightarrow> browser \<Rightarrow> chat_modal \<Rightarrow> clock \<Rightarrow> send_response \<Rightarrow> chat_state \<Rightarrow> world
     \<Rightarrow> chat_state \<times> world \<times> effect list" where
  \<comment> \<open>part_001, lines 141-196\<close>
  "send_p1 wc br cm clk resp s w =
     (if sending s \<or> trim (input s) = [] \<or> \<not> truthy (threadId s) then (s, w, [])
      else
        (let content = trim (input s);
             tempId = tempIdOf clk;
             optimistic =
               \<lparr>msg_id = tempId, msg_role = User,
                msg_content = stringify br content (imageDataUrls s),
                msg_created_at = Some (iso_optimistic clk)\<rparr>;
             s1 = s\<lparr>input := [], messages := messages s @ [optimistic], sending := True\<rparr>
         in finishSend tempId
           (case resp of
              SendRejected msg \<Rightarrow> (Some msg, s1, w, [])
            | SendNotOk err \<Rightarrow> (Some (orElse err (js ''Send failed'')), s1, w, [])
            | SendOk newMsgs \<Rightarrow>
                (let serverUser = find (\<lambda>m. msg_role m = User) newMsgs;
                     serverAssistant = find (\<lambda>m. msg_role m = Assistant) newMsgs;
                     s2 = s1\<lparr>messages := confirmSent tempId newMsgs (messages s1)\<rparr>;
                     thumbs = filter (\<lambda>t. t \<noteq> []) (map (createThumbnail br) (imageDataUrls s));
                     userEncrypted =
                       (case serverUser of
                          Some u \<Rightarrow> (toItem u)\<lparr>item_content := stringify br content thumbs\<rparr>
                        | None \<Rightarrow>
                            \<lparr>item_id = tempId, item_role = User,
                             item_content = stringify br content thumbs,
                             item_created_at = Some (iso_encrypted clk)\<rparr>);
                     items = userEncrypted # (case serverAssistant of None \<Rightarrow> [] | Some a \<Rightarrow> [toItem a])
                 in case saveEncryptedBatch wc cm (orElse (threadId s) []) items w of
                      (Inl e, w1) \<Rightarrow> (Some (errorMessage br e), s2, w1, [])
                    | (Inr fx, w1) \<Rightarrow> (None, s2\<lparr>imageDataUrls := []\<rparr>, w1, fx)))))"

definition send_p2 ::
  "webcrypto \<Rightarrow> browser \<Rightarrow> chat_modal \<Rightarrow> clock \<Rightarrow> send_response \<Rightarrow> chat_state \<Rightarrow> world
     \<Rightarrow> chat_state \<times> world \<times> effect list" where
  \<comment> \<open>part_002, lines 133-172\<close>
  "send_p2 wc br cm clk resp s w =
     (if trim (input s) = [] \<or> \<not> truthy (threadId s) then (s, w, [])
      else
        (let content = trim (input s);
             tempId = tempIdOf clk;
             optimistic =
               \<lparr>msg_id = tempId, msg_role = User, msg_content = content,
                msg_created_at = Some (iso_optimistic clk)\<rparr>;
             s1 = s\<lparr>input := [], messages := messages s @ [optimistic], sending := True\<rparr>
         in finishSend tempId
           (case resp of
              SendRejected msg \<Rightarrow> (Some msg, s1, w, [])
            | SendNotOk err \<Rightarrow> (Some (orElse err (js ''Send failed'')), s1, w, [])
            | SendOk newMsgs \<Rightarrow>
                (let serverUser = find (\<lambda>m. msg_role m = User) newMsgs;
                     serverAssistant = find (\<lambda>m. msg_role m = Assistant) newMsgs;
                     s2 = s1\<lparr>messages := confirmSent tempId newMsgs (messages s1)\<rparr>;
                     userItem =
                       (case serverUser of
                          Some u \<Rightarrow> toItem u
                        | None \<Rightarrow>
                            \<lparr>item_id = tempId, item_role = User, item_content = content,
                             item_created_at = Some (iso_encrypted clk)\<rparr>);
                     items = userItem # (case serverAssistant of None \<Rightarrow> [] | Some a \<Rightarrow> [toItem a])
                 in case saveEncryptedBatch wc cm (orElse (threadId s) []) items w of
                      (Inl e, w1) \<Rightarrow> (Some (errorMessage br e), s2, w1, [])
                    | (Inr fx, w1) \<Rightarrow> (None, s2, w1, fx)))))"

subsection \<open>Edit\<close>

fun findIndex :: "('a \<Rightarrow> bool) \<Rightarrow> 'a list \<Rightarrow> nat option" where
  \<comment> \<open>\<open>Array.prototype.findIndex\<close>; \<open>None\<close> is \<open>-1\<close>\<close>
  "findIndex P [] = None"
| "findIndex P (x # xs) = (if P x then Some 0 else map_option Suc (findIndex P xs))"

definition optimisticEdit :: "jsstring \<Rightarrow> jsstring \<Rightarrow> message list \<Rightarrow> message list" where
  \<comment> \<open>the state update before the request: the edited message is rewritten in place and
      the list cut after it\<close>
  "optimisticEdit mid text prev =
     (case findIndex (\<lambda>x. msg_id x = mid) prev of
        None \<Rightarrow> prev
      | Some index \<Rightarrow> take (index + 1) (prev[index := (prev ! index)\<lparr>msg_content := text\<rparr>]))"

datatype edit_response =
  EditRejected error
  | EditNotOk "jsstring option"
  | EditOk "row list" "jsstring option"

text \<open>
  \<open>EditRejected e\<close>: the request or the parsing of its body threw; \<open>EditNotOk err\<close>: the
  response is not ok and \<open>data?.error\<close> is \<open>err\<close>; \<open>EditOk rows tid\<close>: the response is ok,
  \<open>data.messages || []\<close> is \<open>rows\<close> and \<open>data.thread_id\<close> is \<open>tid\<close>.
\<close>

definition lastTwo :: "row list \<Rightarrow> message list \<Rightarrow> batch_item list" where
  "lastTwo raw display =
     map (\<lambda>r. \<lparr>item_id = row_id r, item_role = row_role r,
                item_content =
                  (case find (\<lambda>d. msg_id d = row_id r) display of
                     None \<Rightarrow> []
                   | Some d \<Rightarrow> msg_content d),
                item_created_at = row_created_at r\<rparr>)
       (drop (length raw - 2) raw)"

definition saveEdit ::
  "(message list \<Rightarrow> row \<Rightarrow> world \<Rightarrow> (error + jsstring) \<times> world) \<Rightarrow> webcrypto \<Rightarrow> chat_modal
     \<Rightarrow> message \<Rightarrow> edit_response \<Rightarrow> chat_state \<Rightarrow> world \<Rightarrow> chat_state \<times> world \<times> effect list" where
  \<comment> \<open>the save handler of the edit box (the button and Ctrl/Cmd+Enter run the same code) for
      the rendered message \<open>m\<close>; \<open>rowText\<close> is the version's resolution of a row's content\<close>
  "saveEdit rowText wc cm m resp s w =
     (if \<not> truthy (threadId s) then (s, w, [])
      else
        (let s1 = s\<lparr>sending := True,
                    messages := optimisticEdit (msg_id m) (editText s) (messages s)\<rparr>
         in case resp of
              EditRejected e \<Rightarrow> (s1, w, [Unhandled e])
            | EditNotOk err \<Rightarrow> (s1, w, [Alert (orElse err (js ''Failed to edit''))])
            | EditOk raw tid \<Rightarrow>
                (case mapRows (rowText (messages s)) raw w of
                   (Inl e, w1) \<Rightarrow> (s1, w1, [Unhandled e])
                 | (Inr display, w1) \<Rightarrow>
                     (let s2 = s1\<lparr>messages := display\<rparr>;
                          thread = orElse tid (orElse (threadId s) [])
                      in case saveEncryptedBatch wc cm thread (lastTwo raw display) w1 of
                           (Inl e, w2) \<Rightarrow> (s2, w2, [Unhandled e])
                         | (Inr fx, w2) \<Rightarrow>
                             (s2\<lparr>editingId := None, editText := [], threadId := Some thread,
                                 sending := False\<rparr>, w2, fx)))))"

definition saveEdit_p1 ::
  "webcrypto \<Rightarrow> chat_modal \<Rightarrow> message \<Rightarrow> edit_response \<Rightarrow> chat_state \<Rightarrow> world
     \<Rightarrow> chat_state \<times> world \<times> effect list" where
  "saveEdit_p1 wc cm = saveEdit (editRowText_p1 wc cm) wc cm"

definition saveEdit_p2 ::
  "webcrypto \<Rightarrow> chat_modal \<Rightarrow> message \<Rightarrow> edit_response \<Rightarrow> chat_state \<Rightarrow> world
     \<Rightarrow> chat_state \<times> world \<times> effect list" where
  "saveEdit_p2 wc cm = saveEdit (editRowText_p2 wc cm) wc cm"

subsection \<open>Image attachments (part_001)\<close>

datatype read_result = ReadFailed | ReadDone "jsstring option"

record image_file =
  file_type :: jsstring
  file_read :: read_result

definition startsWith :: "jsstring \<Rightarrow> jsstring \<Rightarrow> bool" where
  "startsWith s p = (take (length p) s = p)"

fun readImages :: "image_file list \<Rightarrow> jsstring list \<Rightarrow> error + jsstring list" where
  \<comment> \<open>the loop body: a rejected read rejects the handler\<close>
  "readImages [] arr = Inr arr"
| "readImages (f # fs) arr =
     (if \<not> startsWith (file_type f) (js ''image/'') then readImages fs arr
      else
        (case file_read f of
           ReadFailed \<Rightarrow> Inl FileReadError
         | ReadDone r \<Rightarrow> readImages fs (arr @ [orElse r []])))"

definition handleImagesSelected :: "image_file list option \<Rightarrow> chat_state \<Rightarrow> chat_state \<times> effect list" where
  "handleImagesSelected files s =
     (case files of
        None \<Rightarrow> (s, [])
      | Some fs \<Rightarrow>
          if fs = [] then (s, [])
          else
            (let arr = imageDataUrls s;
                 n = nat (min (int (length fs)) (max 0 (6 - int (length arr))))
             in case readImages (take n fs) arr of
                  Inl e \<Rightarrow> (s, [Unhandled e])
                | Inr arr' \<Rightarrow> (s\<lparr>imageDataUrls := arr'\<rparr>, [])))"

definition removeImage :: "nat \<Rightarrow> chat_state \<Rightarrow> chat_state" where
  \<comment> \<open>\<open>setImageDataUrls(prev => prev.filter((_, i) => i !== idx))\<close>\<close>
  "removeImage idx s =
     s\<lparr>imageDataUrls := map snd (filter (\<lambda>(i, _). i \<noteq> idx) (enumerate 0 (imageDataUrls s)))\<rparr>"

section \<open>UserManagement: key export and import\<close>

text \<open>The JSON object of a backup file: \<open>{ v, cid, salt, iv, data }\<close>.\<close>

record backup =
  bk_v :: nat
  bk_cid :: "jsstring option"
  bk_salt :: jsstring
  bk_iv :: jsstring
  bk_data :: jsstring

definition orNull :: "jsstring option \<Rightarrow> jsstring option" where
  \<comment> \<open>\<open>v || null\<close>\<close>
  "orNull v = (if truthy v then v else None)"

definition exportKey ::
  "webcrypto \<Rightarrow> jsstring option \<Rightarrow> world \<Rightarrow> (error + backup option) \<times> world" where
  \<comment> \<open>part_000, lines 899-914; \<open>pass\<close> is what the prompt returns, the result the
      downloaded file\<close>
  "exportKey wc pass w =
     (let (keyB64, w1) =
            (if truthy (chat_master_key (storage w)) then (chat_master_key (storage w), w)
             else
               (let (raw, w') = getRandomValues 32 w
                in (Some (b64e raw), setMasterKey (b64e raw) w')))
      in if \<not> truthy pass then (Inr None, w1)
         else
           (let (salt, w2) = getRandomValues 16 w1;
                wrapKey = pbkdf2_sha256 wc (te_encode (orElse pass [])) salt 100000;
                (iv, w3) = getRandomValues 12 w2
            in case b64d keyB64 of
                 Inl e \<Rightarrow> (Inl e, w3)
               | Inr raw \<Rightarrow>
                   (Inr (Some \<lparr>bk_v = 1, bk_cid = orNull (company_id (storage w3)),
                               bk_salt = b64e salt, bk_iv = b64e iv,
                               bk_data = b64e (aes_gcm_encrypt wc wrapKey iv raw)\<rparr>), w3)))"

datatype import_result =
  ImportCancelled
  | BadPassphraseOrCorrupt
  | TenantMismatch
  | Imported

text \<open>
  \<open>ImportCancelled\<close>: no passphrase was entered, nothing is shown;
  \<open>BadPassphraseOrCorrupt\<close>: the alert "Invalid backup or passphrase";
  \<open>TenantMismatch\<close>: the alert "Backup key belongs to a different company and cannot
  decrypt current chats."; \<open>Imported\<close>: the alert "Key imported successfully".
\<close>

definition importKey ::
  "webcrypto \<Rightarrow> backup \<Rightarrow> jsstring option \<Rightarrow> world \<Rightarrow> import_result \<times> world" where
  \<comment> \<open>part_000, lines 924-939; \<open>obj\<close> is the parsed file, \<open>pass\<close> what the prompt returns\<close>
  "importKey wc obj pass w =
     (if \<not> truthy pass then (ImportCancelled, w)
      else
        (case b64d (Some (bk_salt obj)) of
           Inl _ \<Rightarrow> (BadPassphraseOrCorrupt, w)
         | Inr salt \<Rightarrow>
             (case b64d (Some (bk_iv obj)) of
                Inl _ \<Rightarrow> (BadPassphraseOrCorrupt, w)
              | Inr iv \<Rightarrow>
                  (case b64d (Some (bk_data obj)) of
                     Inl _ \<Rightarrow> (BadPassphraseOrCorrupt, w)
                   | Inr data \<Rightarrow>
                       (let unwrap = pbkdf2_sha256 wc (te_encode (orElse pass [])) salt 100000
                        in case aes_gcm_decrypt wc unwrap iv data of
                             None \<Rightarrow> (BadPassphraseOrCorrupt, w)
                           | Some raw \<Rightarrow>
                               (let keyB64 = b64e raw;
                                    currentCid = orNull (company_id (storage w));
                                    backupCid = orNull (bk_cid obj)
                                in if truthy backupCid \<and> truthy currentCid \<and> backupCid \<noteq> currentCid
                                   then (TenantMismatch, w)
                                   else (Imported, setMasterKey keyB64 w)))))))"

section \<open>A stand-in for the platform's primitives\<close>

text \<open>
  The theorems below hold for every \<open>webcrypto\<close> with the stated properties. To run the
  model on concrete inputs, these functions stand in for the platform's: the "tag" of a
  ciphertext is the first 16 bytes of the zero-padded key.
\<close>

definition test_tag :: "bytes \<Rightarrow> bytes" where
  "test_tag k = take 16 (k @ replicate 16 0)"

definition test_crypto :: webcrypto where
  "test_crypto =
     \<lparr>hkdf_sha256 = (\<lambda>ikm salt info. take 32 (ikm @ info @ replicate 32 0)),
      pbkdf2_sha256 = (\<lambda>pass salt n. take 32 (pass @ salt @ replicate 32 0)),
      aes_gcm_encrypt = (\<lambda>k iv p. p @ test_tag k),
      aes_gcm_decrypt = (\<lambda>k iv c.
         if 16 \<le> length c \<and> drop (length c - 16) c = test_tag k
         then Some (take (length c - 16) c) else None)\<rparr>"

definition test_world :: world where
  "test_world =
     \<lparr>storage = \<lparr>auth_token = None, company_id = Some (js ''acme''), chat_master_key = None\<rparr>,
      entropy = (\<lambda>i. of_nat i), drawn = 0\<rparr>"

definition test_modal :: chat_modal where
  "test_modal = \<lparr>profileId = js ''p1'', companyId = Some (js ''acme'')\<rparr>"

definition test_state :: chat_state where
  "test_state =
     \<lparr>threadId = Some (js ''t1''), messages = [], input = [], sending = False,
      editingId = None, editText = [], imageDataUrls = []\<rparr>"

definition test_message :: "string \<Rightarrow> role \<Rightarrow> string \<Rightarrow> message" where
  "test_message i r c = \<lparr>msg_id = js i, msg_role = r, msg_content = js c, msg_created_at = None\<rparr>"

definition test_clock :: clock where
  "test_clock = \<lparr>date_now = 5, iso_optimistic = js ''t'', iso_encrypted = js ''t''\<rparr>"

definition test_browser :: browser where
  "test_browser =
     \<lparr>stringify = (\<lambda>text images. text @ concat images), createThumbnail = (\<lambda>url. url),
      errorMessage = (\<lambda>e. js ''error'')\<rparr>"

definition test_file :: "string \<Rightarrow> string \<Rightarrow> image_file" where
  "test_file t url = \<lparr>file_type = js t, file_read = ReadDone (Some (js url))\<rparr>"

definition test_encrypted :: "jsstring \<Rightarrow> encrypted_payload" where
  \<comment> \<open>what \<open>encryptWithProfile\<close> returns for a plaintext, in the test world\<close>
  "test_encrypted p = projr (fst (encryptWithProfile test_crypto test_modal p test_world))"

definition test_world_after :: "jsstring \<Rightarrow> world" where
  "test_world_after p = snd (encryptWithProfile test_crypto test_modal p test_world)"

definition test_row :: "string \<Rightarrow> jsstring option \<Rightarrow> encrypted_payload option \<Rightarrow> row" where
  "test_row i c e =
     \<lparr>row_id = js i, row_role = User, row_content = c,
      row_content_enc = map_option content_enc e, row_content_nonce = map_option content_nonce e,
      row_created_at = None\<rparr>"

definition test_world_logged_out :: world where
  "test_world_logged_out =
     test_world\<lparr>storage := \<lparr>auth_token = None, company_id = None, chat_master_key = None\<rparr>\<rparr>"

definition test_backup :: "world \<Rightarrow> backup" where
  \<comment> \<open>the file that \<open>exportKey\<close> writes in a world, under the passphrase "pw"\<close>
  "test_backup w = the (projr (fst (exportKey test_crypto (Some (js ''pw'')) w)))"

definition test_world_globex :: world where
  "test_world_globex =
     test_world\<lparr>storage := \<lparr>auth_token = None, company_id = Some (js ''globex''),
       chat_master_key = None\<rparr>\<rparr>"


section \<open>Auxiliary definitions\<close>

text \<open>
  Used in the proofs only: the 6-bit groups and the padding that \<open>btoa\<close> writes, and
  the Unicode scalar values.
\<close>

fun sextets :: "nat list \<Rightarrow> nat list" where
  "sextets [] = []"
| "sextets [a] = [a div 4, (a mod 4) * 16]"
| "sextets [a, b] = [a div 4, (a mod 4) * 16 + b div 16, (b mod 16) * 4]"
| "sextets (a # b # c # r) =
     [a div 4, (a mod 4) * 16 + b div 16, (b mod 16) * 4 + c div 64, c mod 64] @ sextets r"

definition padding :: "nat list \<Rightarrow> nat list" where
  "padding bs = replicate ((3 - length bs mod 3) mod 3) 61"

definition is_scalar :: "nat \<Rightarrow> bool" where
  "is_scalar cp = (cp < 1114112 \<and> \<not> (55296 \<le> cp \<and> cp \<le> 57343))"

text \<open>
  Used in the statements about image attachments: whether a selected file passes the MIME
  check, whether its read fails, and the data URL a successful read pushes.
\<close>

definition isImage :: "image_file \<Rightarrow> bool" where
  "isImage f = startsWith (file_type f) (js ''image/'')"

definition readFails :: "image_file \<Rightarrow> bool" where
  "readFails f = (file_read f = ReadFailed)"

definition dataUrl :: "image_file \<Rightarrow> jsstring" where
  "dataUrl f = (case file_read f of ReadFailed \<Rightarrow> [] | ReadDone r \<Rightarrow> orElse r [])"

text \<open>
  Used in the statements about the resolution of a row's content: the first candidate that
  is present (neither \<open>null\<close> nor empty) in a list of candidates, else the empty string,
  and the locally cached content for a message id.
\<close>

fun firstPresent :: "jsstring option list \<Rightarrow> jsstring" where
  "firstPresent [] = []"
| "firstPresent (c # cs) = (if truthy c then orElse c [] else firstPresent cs)"

definition cached :: "message list \<Rightarrow> jsstring \<Rightarrow> jsstring option" where
  "cached cache rid = map_option msg_content (find (\<lambda>p. msg_id p = rid) cache)"

text \<open>
  Used in the statements about key import: the raw key that the decoding and decryption
  steps of the import yield for a backup and a passphrase, if they succeed.
\<close>

definition unwrapped :: "webcrypto \<Rightarrow> backup \<Rightarrow> jsstring option \<Rightarrow> bytes option" where
  "unwrapped wc obj pass =
     (case (b64d (Some (bk_salt obj)), b64d (Some (bk_iv obj)), b64d (Some (bk_data obj))) of
        (Inr salt, Inr iv, Inr data) \<Rightarrow>
          aes_gcm_decrypt wc (pbkdf2_sha256 wc (te_encode (orElse pass [])) salt 100000) iv data
      | _ \<Rightarrow> None)"

text \<open>The backup that \<open>exportKey\<close> writes for a raw key, in a world holding that key.\<close>

definition backupOf :: "webcrypto \<Rightarrow> jsstring option \<Rightarrow> bytes \<Rightarrow> world \<Rightarrow> backup" where
  "backupOf wc pass raw w1 =
     \<lparr>bk_v = 1,
      bk_cid = orNull (company_id (storage w1)),
      bk_salt = b64e (fst (getRandomValues 16 w1)),
      bk_iv = b64e (fst (getRandomValues 12 (snd (getRandomValues 16 w1)))),
      bk_data = b64e (aes_gcm_encrypt wc
        (pbkdf2_sha256 wc (te_encode (orElse pass [])) (fst (getRandomValues 16 w1)) 100000)
        (fst (getRandomValues 12 (snd (getRandomValues 16 w1)))) raw)\<rparr>"





section \<open>Base64 round trip\<close>

lemma b64char_idx: "i < 64 \<Longrightarrow> b64idx (b64char i) = Some i"
  by (auto simp: b64char_def b64idx_def)

lemma btoa_units_split: "btoa_units bs = map b64char (sextets bs) @ padding bs"
proof (induction bs rule: btoa_units.induct)
  case (4 a b c r)
  have "padding (a # b # c # r) = padding r"
    by (simp add: padding_def)
  with 4 show ?case by simp
qed (simp_all add: padding_def numeral_2_eq_2)

lemma byte_div_bounds: "(b::nat) < 256 \<Longrightarrow> b div 4 < 64 \<and> b div 16 < 16 \<and> b div 64 < 4"
  by (simp add: div_less_iff_less_mult)

lemma sextet_bounds:
  fixes a b c :: nat
  assumes "a < 256" "b < 256" "c < 256"
  shows "a div 4 < 64" "a mod 4 * 16 < 64" "a mod 4 * 16 + b div 16 < 64"
    "b mod 16 * 4 < 64" "b mod 16 * 4 + c div 64 < 64" "c mod 64 < 64"
proof -
  have "a mod 4 < 4" "b mod 16 < 16" "b div 16 < 16" "c div 64 < 4"
    using assms by (simp_all add: byte_div_bounds)
  then show "a mod 4 * 16 < 64" "a mod 4 * 16 + b div 16 < 64"
    "b mod 16 * 4 < 64" "b mod 16 * 4 + c div 64 < 64" by linarith+
  show "a div 4 < 64" "c mod 64 < 64" using assms by (simp_all add: byte_div_bounds)
qed

lemma sextets_bound: "\<forall>b\<in>set bs. b < 256 \<Longrightarrow> \<forall>i\<in>set (sextets bs). i < 64"
proof (induction bs rule: sextets.induct)
  case (2 a)
  then show ?case using sextet_bounds [of a 0 0] by simp
next
  case (3 a b)
  then show ?case using sextet_bounds [of a b 0] by simp
next
  case (4 a b c r)
  then show ?case using sextet_bounds [of a b c] by simp
qed simp

lemma length_sextets_mod: "length (sextets bs) mod 4 \<noteq> 1"
  by (induction bs rule: sextets.induct) simp_all

lemma regroup1: "(a::nat) div 4 * 4 + a mod 4 * 16 div 16 = a"
  by simp

lemma regroup2:
  fixes a b :: nat
  assumes "b < 256"
  shows "a div 4 * 4 + (a mod 4 * 16 + b div 16) div 16 = a"
    "(a mod 4 * 16 + b div 16) mod 16 * 16 + b mod 16 * 4 div 4 = b"
proof -
  have d: "b div 16 < 16" using assms by (simp add: byte_div_bounds)
  show "a div 4 * 4 + (a mod 4 * 16 + b div 16) div 16 = a" using d by simp
  show "(a mod 4 * 16 + b div 16) mod 16 * 16 + b mod 16 * 4 div 4 = b" using d by simp
qed

lemma regroup3:
  fixes a b c :: nat
  assumes "b < 256" "c < 256"
  shows "(a mod 4 * 16 + b div 16) mod 16 * 16 + (b mod 16 * 4 + c div 64) div 4 = b"
    "(b mod 16 * 4 + c div 64) mod 4 * 64 + c mod 64 = c"
proof -
  have d: "b div 16 < 16" "c div 64 < 4" using assms by (simp_all add: byte_div_bounds)
  show "(a mod 4 * 16 + b div 16) mod 16 * 16 + (b mod 16 * 4 + c div 64) div 4 = b"
    using d by simp
  show "(b mod 16 * 4 + c div 64) mod 4 * 64 + c mod 64 = c" using d by simp
qed

lemma sextets_bytes_sextets: "\<forall>b\<in>set bs. b < 256 \<Longrightarrow> sextets_bytes (sextets bs) = bs"
proof (induction bs rule: sextets.induct)
  case (2 a)
  show ?case by (simp only: sextets.simps sextets_bytes.simps regroup1)
next
  case (3 a b)
  then have "b < 256" by simp
  then show ?case by (simp only: sextets.simps sextets_bytes.simps regroup2)
next
  case (4 a b c r)
  then have "b < 256" "c < 256" and r: "sextets_bytes (sextets r) = r" by simp_all
  then show ?case
    by (simp only: sextets.simps sextets_bytes.simps regroup2 regroup3 append.simps)
qed simp

lemma b64char_not_pad: "b64char i \<noteq> 61"
  by (auto simp: b64char_def)

lemma b64char_not_ws: "\<not> ascii_whitespace (b64char i)"
  by (auto simp: b64char_def ascii_whitespace_def)

lemma pad_not_ws: "\<not> ascii_whitespace 61"
  by (simp add: ascii_whitespace_def)

lemma length_btoa_units: "length (btoa_units bs) mod 4 = 0"
  by (induction bs rule: btoa_units.induct) simp_all

lemma strip_padding_core:
  assumes "\<forall>c\<in>set cs. c \<noteq> 61" "length (cs @ replicate n 61) mod 4 = 0" "n \<le> 2"
  shows "strip_padding (cs @ replicate n 61) = cs"
proof -
  have last_cs: "cs \<noteq> [] \<Longrightarrow> last cs \<noteq> 61" using assms(1) last_in_set by blast
  consider "n = 0" | "n = 1" | "n = 2" using assms(3) by linarith
  then show ?thesis
  proof cases
    case 1
    with assms last_cs show ?thesis by (auto simp: strip_padding_def)
  next
    case 2
    with assms last_cs show ?thesis by (auto simp: strip_padding_def)
  next
    case 3
    then have "replicate n (61::nat) = [61, 61]" by (simp add: numeral_2_eq_2)
    with assms last_cs show ?thesis by (auto simp: strip_padding_def butlast_append)
  qed
qed

lemma atob_btoa_units:
  assumes "\<forall>b\<in>set bs. b < 256"
  shows "atob_units (btoa_units bs) = Inr bs"
proof -
  let ?cs = "map b64char (sextets bs)"
  have idx: "\<forall>i\<in>set (sextets bs). i < 64" using assms by (rule sextets_bound)
  have nows: "filter (\<lambda>c. \<not> ascii_whitespace c) (btoa_units bs) = btoa_units bs"
    by (rule filter_True) (auto simp: btoa_units_split padding_def b64char_not_ws pad_not_ws)
  have "strip_padding (btoa_units bs) = ?cs"
    unfolding btoa_units_split padding_def
  proof (rule strip_padding_core)
    show "\<forall>c\<in>set ?cs. c \<noteq> 61" by (auto simp: b64char_not_pad)
    show "length (?cs @ replicate ((3 - length bs mod 3) mod 3) 61) mod 4 = 0"
      using length_btoa_units [of bs] by (simp add: btoa_units_split padding_def)
    show "(3 - length bs mod 3) mod 3 \<le> 2"
      using mod_less_divisor [of 3 "3 - length bs mod 3"] by linarith
  qed
  moreover have "length ?cs mod 4 \<noteq> 1" using length_sextets_mod [of bs] by simp
  moreover have "\<not> list_ex (\<lambda>c. b64idx c = None) ?cs"
    using idx by (auto simp: list_ex_iff b64char_idx)
  moreover have "map (\<lambda>c. the (b64idx c)) ?cs = sextets bs"
    using idx by (auto simp: b64char_idx intro: map_idI)
  ultimately show ?thesis
    using assms by (simp add: atob_units_def nows sextets_bytes_sextets)
qed

lemma unat_byte_lt: "\<forall>b\<in>set (map unat (buf :: bytes)). b < 256"
  using unsigned_less [where 'a = nat and 'b = 8] by auto

lemma b64char_lt: "i < 64 \<Longrightarrow> b64char i < 65536"
  by (auto simp: b64char_def)

lemma btoa_units_lt: "\<forall>b\<in>set bs. b < 256 \<Longrightarrow> \<forall>c\<in>set (btoa_units bs). c < 65536"
  using sextets_bound [of bs] by (auto simp: btoa_units_split padding_def b64char_lt)

lemma map_unat_of_nat:
  "\<forall>c\<in>set cs. c < 2 ^ LENGTH('a) \<Longrightarrow> map unat (map of_nat cs :: 'a::len word list) = cs"
  by (induction cs) (simp_all add: unat_of_nat)

lemma b64d_b64e: "b64d (Some (b64e buf)) = Inr buf"
proof -
  have "map unat (b64e buf) = btoa_units (map unat buf)"
    unfolding b64e_def using btoa_units_lt [OF unat_byte_lt, of buf]
    by (intro map_unat_of_nat) simp
  then show ?thesis
    by (simp add: b64d_def toDOMString_def atob_btoa_units [OF unat_byte_lt] comp_def)
qed

section \<open>UTF-8 round trip\<close>

lemma lead_mod:
  fixes x :: nat
  shows "x < 32 \<Longrightarrow> (192 + x) mod 32 = x" "x < 16 \<Longrightarrow> (224 + x) mod 16 = x"
    "x < 8 \<Longrightarrow> (240 + x) mod 8 = x" "x < 64 \<Longrightarrow> (128 + x) mod 64 = x"
  using mod_mult_self3 [of 6 32 x] mod_mult_self3 [of 14 16 x] mod_mult_self3 [of 30 8 x]
    mod_mult_self3 [of 2 64 x]
  by simp_all

lemma run1: "b < 128 \<Longrightarrow> utf8_run utf8_init (b # rest) = b # utf8_run utf8_init rest"
  by (simp add: utf8_init_def)

lemma run2:
  assumes "2 \<le> x" "x < 32" "y < 64"
  shows "utf8_run utf8_init ((192 + x) # (128 + y) # rest) = (x * 64 + y) # utf8_run utf8_init rest"
  using assms by (simp add: utf8_init_def lead_mod)

lemma run3:
  assumes "x < 16" "y < 64" "z < 64" "x = 0 \<longrightarrow> 32 \<le> y" "x = 13 \<longrightarrow> y < 32"
  shows "utf8_run utf8_init ((224 + x) # (128 + y) # (128 + z) # rest) =
         ((x * 64 + y) * 64 + z) # utf8_run utf8_init rest"
  using assms by (auto simp: utf8_init_def lead_mod)

lemma run4:
  assumes "x < 5" "y < 64" "z < 64" "w < 64" "x = 0 \<longrightarrow> 16 \<le> y" "x = 4 \<longrightarrow> y < 16"
  shows "utf8_run utf8_init ((240 + x) # (128 + y) # (128 + z) # (128 + w) # rest) =
         (((x * 64 + y) * 64 + z) * 64 + w) # utf8_run utf8_init rest"
  using assms by (auto simp: utf8_init_def lead_mod)


lemma decode_encoded:
  assumes "is_scalar cp"
  shows "utf8_run utf8_init (utf8_bytes cp @ rest) = cp # utf8_run utf8_init rest"
proof -
  define q where "q = cp div 64"
  define z where "z = cp mod 64"
  have cp: "cp = q * 64 + z" and z: "z < 64" by (simp_all add: q_def z_def)
  consider "cp < 128" | "128 \<le> cp" "cp < 2048" | "2048 \<le> cp" "cp < 65536" | "65536 \<le> cp"
    by linarith
  then show ?thesis
  proof cases
    case 1
    then show ?thesis by (simp add: utf8_bytes_def run1)
  next
    case 2
    then have "2 \<le> q" "q < 32" using cp z by linarith+
    then have "utf8_run utf8_init ((192 + q) # (128 + z) # rest) = cp # utf8_run utf8_init rest"
      using z by (simp add: run2 cp)
    with 2 show ?thesis by (simp add: utf8_bytes_def q_def z_def)
  next
    case 3
    define x where "x = q div 64"
    define y where "y = q mod 64"
    have q: "q = x * 64 + y" and y: "y < 64" by (simp_all add: x_def y_def)
    have x: "x < 16" using 3 cp q z y by linarith
    have lo: "x = 0 \<longrightarrow> 32 \<le> y" using 3 cp q z by auto
    have "cp < 55296 \<or> 57343 < cp" using assms by (auto simp: is_scalar_def)
    then have hi: "x = 13 \<longrightarrow> y < 32" using cp q z y by auto
    have "utf8_run utf8_init ((224 + x) # (128 + y) # (128 + z) # rest) =
        cp # utf8_run utf8_init rest"
      using x y z lo hi by (simp add: run3 cp q)
    moreover have "cp div 4096 = x" by (simp add: x_def q_def div_mult2_eq)
    ultimately show ?thesis using 3 by (simp add: utf8_bytes_def q_def [symmetric] y_def z_def)
  next
    case 4
    define p where "p = q div 64"
    define y where "y = p mod 64"
    define x where "x = p div 64"
    define w where "w = q mod 64"
    have q: "q = p * 64 + w" and w: "w < 64" by (simp_all add: p_def w_def)
    have p: "p = x * 64 + y" and y: "y < 64" by (simp_all add: x_def y_def)
    have "cp < 1114112" using assms by (simp add: is_scalar_def)
    then have x: "x < 5" using cp q p by linarith
    have lo: "x = 0 \<longrightarrow> 16 \<le> y" using 4 cp q p z w by auto
    have hi: "x = 4 \<longrightarrow> y < 16" using \<open>cp < 1114112\<close> cp q p by auto
    have "utf8_run utf8_init ((240 + x) # (128 + y) # (128 + w) # (128 + z) # rest) =
        cp # utf8_run utf8_init rest"
      using x y z w lo hi by (simp add: run4 cp q p)
    moreover have "cp div 4096 = p" by (simp add: p_def q_def div_mult2_eq)
    moreover have "cp div 262144 = x" by (simp add: x_def p_def q_def div_mult2_eq)
    ultimately show ?thesis
      using 4 by (simp add: utf8_bytes_def q_def [symmetric] y_def z_def w_def)
  qed
qed


lemma decode_encoded_list:
  "\<forall>cp\<in>set cps. is_scalar cp \<Longrightarrow> utf8_run utf8_init (concat (map utf8_bytes cps)) = cps"
proof (induction cps)
  case Nil
  show ?case by (simp add: utf8_init_def)
next
  case (Cons cp cps)
  then show ?case by (simp add: decode_encoded)
qed

lemma utf8_bytes_lt:
  assumes "is_scalar cp"
  shows "\<forall>b\<in>set (utf8_bytes cp). b < 256"
proof -
  have "cp < 1114112" using assms by (simp add: is_scalar_def)
  then have "cp div 262144 < 5" by (simp add: div_less_iff_less_mult)
  moreover have "cp < 65536 \<Longrightarrow> cp div 4096 < 16" "cp < 2048 \<Longrightarrow> cp div 64 < 32"
    by (simp_all add: div_less_iff_less_mult)
  moreover have "cp mod 64 < 64" "cp div 64 mod 64 < 64" "cp div 4096 mod 64 < 64" by simp_all
  ultimately show ?thesis by (auto simp: utf8_bytes_def)
qed

lemma pair_scalar:
  assumes "is_high u" "is_low v"
  shows "is_scalar (65536 + (u - 55296) * 1024 + (v - 56320))"
    "utf16_units (65536 + (u - 55296) * 1024 + (v - 56320)) = [u, v]"
proof -
  define a where "a = u - 55296"
  define b where "b = v - 56320"
  have a: "a < 1024" "u = 55296 + a" and b: "b < 1024" "v = 56320 + b"
    using assms by (auto simp: is_high_def is_low_def a_def b_def)
  show "is_scalar (65536 + (u - 55296) * 1024 + (v - 56320))"
    using a b by (simp add: is_scalar_def a_def [symmetric] b_def [symmetric])
  have "(a * 1024 + b) div 1024 = a" "(a * 1024 + b) mod 1024 = b" using b by simp_all
  then show "utf16_units (65536 + (u - 55296) * 1024 + (v - 56320)) = [u, v]"
    using a b by (simp add: utf16_units_def a_def [symmetric] b_def [symmetric])
qed

lemma unit_scalar:
  assumes "\<not> is_high u" "\<not> is_low u" "u < 65536"
  shows "is_scalar u" "utf16_units u = [u]"
  using assms by (auto simp: is_scalar_def is_high_def is_low_def utf16_units_def)

lemma scalars_well_formed:
  assumes "well_formed us" "\<forall>u\<in>set us. u < 65536"
  shows "(\<forall>cp\<in>set (scalars us). is_scalar cp) \<and> concat (map utf16_units (scalars us)) = us"
  using assms
proof (induction us rule: scalars.induct)
  case 1
  show ?case by simp
next
  case (2 u)
  then show ?case by (simp add: unit_scalar)
next
  case (3 u v r)
  show ?case
  proof (cases "is_high u")
    case True
    with 3 show ?thesis by (simp add: pair_scalar)
  next
    case False
    with 3 show ?thesis by (simp add: unit_scalar)
  qed
qed

lemma no_bom_bytes:
  assumes "is_scalar cp" "cp \<noteq> 65279"
  shows "take 3 (utf8_bytes cp @ rest) \<noteq> [239, 187, 191]"
proof
  assume t: "take 3 (utf8_bytes cp @ rest) = [239, 187, 191]"
  define q where "q = cp div 64"
  define z where "z = cp mod 64"
  have cp: "cp = q * 64 + z" and z: "z < 64" by (simp_all add: q_def z_def)
  consider "cp < 128" | "128 \<le> cp" "cp < 2048" | "2048 \<le> cp" "cp < 65536" | "65536 \<le> cp"
    by linarith
  then show False
  proof cases
    case 1
    with t show False by (simp add: utf8_bytes_def)
  next
    case 2
    then have "q < 32" using cp by linarith
    with 2 t show False by (simp add: utf8_bytes_def q_def)
  next
    case 3
    define x where "x = q div 64"
    define y where "y = q mod 64"
    have q: "q = x * 64 + y" by (simp add: x_def y_def)
    have "cp div 4096 = x" by (simp add: x_def q_def div_mult2_eq)
    with 3 t have "x = 15" "y = 59" "z = 63"
      by (simp_all add: utf8_bytes_def q_def [symmetric] y_def [symmetric] z_def [symmetric])
    with cp q assms(2) show False by simp
  next
    case 4
    with t show False by (simp add: utf8_bytes_def)
  qed
qed

lemma scalars_hd:
  assumes "well_formed (u # r)" "u \<noteq> 65279" "\<forall>x\<in>set (u # r). x < 65536"
  shows "\<exists>cp cps. scalars (u # r) = cp # cps \<and> cp \<noteq> 65279 \<and> is_scalar cp"
proof (cases r)
  case Nil
  with assms show ?thesis by (simp add: unit_scalar)
next
  case (Cons v r')
  show ?thesis
  proof (cases "is_high u")
    case True
    with assms Cons have "is_low v" by simp
    with True Cons pair_scalar(1) [of u v] show ?thesis by simp
  next
    case False
    with assms Cons show ?thesis by (simp add: unit_scalar)
  qed
qed

lemma unat_unit_lt: "\<forall>u\<in>set (map unat (s :: jsstring)). u < 65536"
  using unsigned_less [where 'a = nat and 'b = 16] by auto


lemma unat_ne: "(w :: 16 word) \<noteq> 65279 \<Longrightarrow> unat w \<noteq> 65279"
proof -
  have "unat (65279 :: 16 word) = 65279" by simp
  then show "w \<noteq> 65279 \<Longrightarrow> unat w \<noteq> 65279" by (metis word_unat_eq_iff)
qed


lemma td_decode_te_encode:
  assumes "isWellFormed s" "s = [] \<or> hd s \<noteq> 65279"
  shows "td_decode (te_encode s) = s"
proof -
  let ?us = "map unat s"
  let ?bs = "concat (map utf8_bytes (scalars ?us))"
  have wf: "well_formed ?us" using assms(1) by (simp add: isWellFormed_def)
  have sc: "\<forall>cp\<in>set (scalars ?us). is_scalar cp"
    and units: "concat (map utf16_units (scalars ?us)) = ?us"
    using scalars_well_formed [OF wf unat_unit_lt] by simp_all
  have "\<forall>b\<in>set ?bs. b < 256" using sc utf8_bytes_lt by auto
  then have bytes: "map unat (te_encode s) = ?bs"
    unfolding te_encode_def by (intro map_unat_of_nat) simp
  have nobom: "take 3 ?bs \<noteq> [239, 187, 191]"
  proof (cases s)
    case Nil
    then show ?thesis by simp
  next
    case (Cons w r)
    with assms(2) have "unat w \<noteq> 65279" by (simp add: unat_ne)
    moreover have "well_formed (unat w # map unat r)" using wf Cons by simp
    moreover have "\<forall>x\<in>set (unat w # map unat r). x < 65536"
      using unat_unit_lt [of s] Cons by simp
    ultimately obtain cp cps where
      "scalars (unat w # map unat r) = cp # cps" "cp \<noteq> 65279" "is_scalar cp"
      using scalars_hd by blast
    then show ?thesis
      using no_bom_bytes [of cp "concat (map utf8_bytes cps)"] Cons by simp
  qed
  have "td_decode (te_encode s) = map of_nat ?us"
    using nobom by (simp add: td_decode_def bytes decode_encoded_list [OF sc] units)
  then show ?thesis by (simp add: comp_def)
qed

section \<open>Literals\<close>

lemma js_simps: "js [] = []" "js (c # cs) = of_nat (of_char c) # js cs"
  by (simp_all add: js_def)

lemma js_Cons_ne: "js (c # cs) \<noteq> []"
  by (simp add: js_def)

section \<open>Edit: the optimistic truncation\<close>

lemma findIndex_first:
  "i < length xs \<Longrightarrow> P (xs ! i) \<Longrightarrow> \<forall>j<i. \<not> P (xs ! j) \<Longrightarrow> findIndex P xs = Some i"
proof (induction xs arbitrary: i)
  case Nil
  then show ?case by simp
next
  case (Cons x xs)
  show ?case
  proof (cases i)
    case 0
    with Cons.prems show ?thesis by simp
  next
    case (Suc k)
    with Cons.prems have "\<not> P x" by auto
    moreover have "findIndex P xs = Some k"
    proof (rule Cons.IH)
      show "k < length xs" using Cons.prems Suc by simp
      show "P (xs ! k)" using Cons.prems Suc by simp
      show "\<forall>j<k. \<not> P (xs ! j)" using Cons.prems(3) Suc by auto
    qed
    ultimately show ?thesis using Suc by simp
  qed
qed

lemma take_Suc_update: "i < length xs \<Longrightarrow> take (Suc i) (xs[i := y]) = take i xs @ [y]"
  by (simp add: take_Suc_conv_app_nth)

lemma optimisticEdit_unique:
  assumes "i < length ms" and "\<forall>j<i. msg_id (ms ! j) \<noteq> msg_id (ms ! i)"
  shows "optimisticEdit (msg_id (ms ! i)) c ms = take i ms @ [(ms ! i)\<lparr>msg_content := c\<rparr>]"
proof -
  have "findIndex (\<lambda>x. msg_id x = msg_id (ms ! i)) ms = Some i"
    using assms by (intro findIndex_first) simp_all
  then show ?thesis using assms(1) by (simp add: optimisticEdit_def take_Suc_update)
qed

lemma saveEdit_not_ok:
  assumes "truthy (threadId s)"
  shows "saveEdit rowText wc cm m (EditNotOk err) s w =
    (s\<lparr>sending := True, messages := optimisticEdit (msg_id m) (editText s) (messages s)\<rparr>, w,
     [Alert (orElse err (js ''Failed to edit''))])"
  using assms by (simp add: saveEdit_def)

text \<open>
  C5 (as amended). Saving an edit of the message at index \<open>i\<close>, when no earlier message of
  the list has the same id, sets the list before the response arrives to the messages
  before index \<open>i\<close>, in their order, followed by the edited message with the new content;
  everything after it is dropped. The outcome of a request that is not ok shows that
  state.
\<close>

theorem edit_truncates_optimistically:
  assumes "i < length (messages s)"
    and "\<forall>j<i. msg_id (messages s ! j) \<noteq> msg_id (messages s ! i)"
    and "truthy (threadId s)"
  shows "optimisticEdit (msg_id (messages s ! i)) (editText s) (messages s) =
           take i (messages s) @ [(messages s ! i)\<lparr>msg_content := editText s\<rparr>]
       \<and> messages (fst (saveEdit_p1 wc cm (messages s ! i) (EditNotOk err) s w)) =
           take i (messages s) @ [(messages s ! i)\<lparr>msg_content := editText s\<rparr>]
       \<and> messages (fst (saveEdit_p2 wc cm (messages s ! i) (EditNotOk err) s w)) =
           take i (messages s) @ [(messages s ! i)\<lparr>msg_content := editText s\<rparr>]"
  using assms optimisticEdit_unique [of i "messages s" "editText s"]
  by (simp add: saveEdit_p1_def saveEdit_p2_def saveEdit_not_ok)

theorem edit_truncates_optimistically_witness:
  "messages (fst (saveEdit_p1 test_crypto test_modal (test_message ''2'' User ''b'') (EditNotOk None)
     (test_state\<lparr>messages := [test_message ''1'' User ''a'', test_message ''2'' User ''b'',
        test_message ''3'' Assistant ''c'', test_message ''4'' User ''d''],
        editText := js ''edited''\<rparr>) test_world)) =
   [test_message ''1'' User ''a'', test_message ''2'' User ''edited'']"
  using edit_truncates_optimistically [of 1
      "test_state\<lparr>messages := [test_message ''1'' User ''a'', test_message ''2'' User ''b'',
        test_message ''3'' Assistant ''c'', test_message ''4'' User ''d''],
        editText := js ''edited''\<rparr>" test_crypto test_modal None test_world]
  by (simp add: test_message_def test_state_def js_simps truthy_def)

text \<open>
  C5 as stated fails when an earlier message has the id of the edited one: the edit of
  the second of two messages with the same id rewrites the first and drops the second.
\<close>

theorem edit_duplicate_id_counterexample:
  "optimisticEdit (msg_id ([test_message ''1'' User ''a'', test_message ''1'' User ''b''] ! 1)) (js ''x'')
     [test_message ''1'' User ''a'', test_message ''1'' User ''b''] \<noteq>
   take 1 [test_message ''1'' User ''a'', test_message ''1'' User ''b''] @
     [([test_message ''1'' User ''a'', test_message ''1'' User ''b''] ! 1)\<lparr>msg_content := js ''x''\<rparr>]"
  by (simp add: optimisticEdit_def test_message_def)

section \<open>Send: the revert on failure\<close>

lemma revertSent_fresh:
  assumes "\<forall>m\<in>set ms. msg_id m \<noteq> tempId" and "msg_id opt = tempId"
  shows "revertSent tempId (ms @ [opt]) = ms"
  using assms by (simp add: revertSent_def)

lemma finishSend_failed:
  "finishSend tempId (Some msg, s, w, fx) =
     (s\<lparr>messages := revertSent tempId (messages s), sending := False\<rparr>, w, fx @ [Alert msg])"
  by (simp add: finishSend_def)

text \<open>
  C4 (as amended). When the list holds no message whose id is the temporary id of this
  send, a send whose request fails (it throws, or the response is not ok) leaves the
  message list exactly as it was: the optimistic entry is removed and nothing else changes.
  Both versions of the component.
\<close>

theorem send_failure_reverts:
  assumes "\<forall>m\<in>set (messages s). msg_id m \<noteq> tempIdOf clk"
    and "resp = SendRejected msg \<or> resp = SendNotOk err"
  shows "messages (fst (send_p1 wc br cm clk resp s w)) = messages s
       \<and> messages (fst (send_p2 wc br cm clk resp s w)) = messages s"
proof -
  have "messages (fst (send_p1 wc br cm clk resp s w)) = messages s"
    using assms by (auto simp: send_p1_def Let_def finishSend_failed revertSent_fresh)
  moreover have "messages (fst (send_p2 wc br cm clk resp s w)) = messages s"
    using assms by (auto simp: send_p2_def Let_def finishSend_failed revertSent_fresh)
  ultimately show ?thesis by simp
qed

lemma js_whitespace_letter: "\<not> js_whitespace 104" "\<not> js_whitespace 105"
  by (simp_all add: js_whitespace_def)

lemma trim_hi: "trim (js ''hi'') = js ''hi''"
  by (simp add: trim_def js_simps js_whitespace_letter)

lemma tempId_test: "tempIdOf test_clock = js ''tmp_5''"
  by (simp add: tempIdOf_def test_clock_def decimal.simps [of 5] js_simps)

theorem send_failure_reverts_witness:
  "send_p1 test_crypto test_browser test_modal test_clock (SendNotOk None)
     (test_state\<lparr>messages := [test_message ''m1'' User ''a''], input := js ''hi''\<rparr>) test_world =
   (test_state\<lparr>messages := [test_message ''m1'' User ''a''], input := []\<rparr>, test_world,
    [Alert (js ''Send failed'')])
   \<and> messages (fst (send_p2 test_crypto test_browser test_modal test_clock (SendNotOk None)
     (test_state\<lparr>messages := [test_message ''m1'' User ''a''], input := js ''hi''\<rparr>) test_world)) =
     [test_message ''m1'' User ''a'']"
proof -
  let ?s = "test_state\<lparr>messages := [test_message ''m1'' User ''a''], input := js ''hi''\<rparr>"
  have fresh: "\<forall>m\<in>set (messages ?s). msg_id m \<noteq> tempIdOf test_clock"
    by (simp add: tempId_test test_message_def test_state_def js_simps)
  have "messages (fst (send_p1 test_crypto test_browser test_modal test_clock (SendNotOk None) ?s test_world)) = messages ?s
      \<and> messages (fst (send_p2 test_crypto test_browser test_modal test_clock (SendNotOk None) ?s test_world)) = messages ?s"
    using send_failure_reverts [OF fresh, of "SendNotOk None" "[]" None] by simp
  moreover have "send_p1 test_crypto test_browser test_modal test_clock (SendNotOk None) ?s test_world =
     (?s\<lparr>input := [], messages := revertSent (tempIdOf test_clock) (messages ?s @ [\<lparr>msg_id = tempIdOf test_clock, msg_role = User,
                msg_content = stringify test_browser (js ''hi'') [],
                msg_created_at = Some (iso_optimistic test_clock)\<rparr>]), sending := False\<rparr>, test_world, [Alert (js ''Send failed'')])"
    by (simp add: send_p1_def Let_def finishSend_failed trim_hi test_state_def truthy_def orElse_def js_Cons_ne)
  ultimately show ?thesis
    by (simp add: test_state_def revertSent_fresh [OF fresh])
qed

text \<open>
  C4 as stated fails when the list already holds a message with the temporary id (an
  earlier optimistic message that the server's response did not replace, and a clock that
  reads the same millisecond): the revert removes that message too.
\<close>

theorem send_failure_id_clash_counterexample:
  "messages (fst (send_p1 test_crypto test_browser test_modal test_clock (SendNotOk None)
     (test_state\<lparr>messages := [test_message ''tmp_5'' User ''earlier''], input := js ''hi''\<rparr>) test_world))
   \<noteq> messages (test_state\<lparr>messages := [test_message ''tmp_5'' User ''earlier''], input := js ''hi''\<rparr>)"
  by (simp add: send_p1_def Let_def finishSend_failed trim_hi test_state_def truthy_def orElse_def
      tempId_test revertSent_def test_message_def js_Cons_ne)

section \<open>Image attachments\<close>

lemma readImages_result:
  "readImages fs arr =
     (if list_ex readFails (filter isImage fs) then Inl FileReadError
      else Inr (arr @ map dataUrl (filter isImage fs)))"
proof (induction fs arbitrary: arr)
  case Nil
  show ?case by simp
next
  case (Cons f fs)
  show ?case
  proof (cases "isImage f")
    case False
    with Cons show ?thesis by (simp add: isImage_def [symmetric])
  next
    case True
    with Cons show ?thesis
      by (cases "file_read f") (simp_all add: isImage_def [symmetric] readFails_def dataUrl_def)
  qed
qed

lemma selection_size:
  "nat (min (int (length fs)) (max 0 (6 - int (length arr)))) = min (length fs) (6 - length arr)"
  by linarith

lemma take_min_length: "take (min (length xs) k) xs = take k xs"
  by (simp add: min_def)

lemma removeImage_length: "length (imageDataUrls (removeImage idx s)) \<le> length (imageDataUrls s)"
  by (simp add: removeImage_def le_trans [OF length_filter_le])

lemma finishSend_images:
  "imageDataUrls (fst (finishSend tempId (r, s, w, fx))) = imageDataUrls s"
  by (cases r) (simp_all add: finishSend_def)

lemma send_p1_images:
  "length (imageDataUrls (fst (send_p1 wc br cm clk resp s w))) \<le> length (imageDataUrls s)"
proof (cases "sending s \<or> trim (input s) = [] \<or> \<not> truthy (threadId s)")
  case True
  then show ?thesis by (auto simp: send_p1_def)
next
  case False
  then show ?thesis
    by (cases resp)
      (auto simp: send_p1_def Let_def finishSend_images split: prod.splits sum.splits)
qed

text \<open>
  C10. A list of at most 6 pending images stays at most 6 long. Of a selection \<open>fs\<close> the
  handler looks at the first \<open>6 - length\<close> files only, skips those whose type does not
  start with \<open>image/\<close>, and appends the data URL of each of the others, in order; if one
  of these reads fails the list is left as it was. Without a selection, or with an empty one,
  nothing changes. The other updates of the list, removing an image and sending, never make
  it longer.
\<close>

theorem images_at_most_six:
  "(length (imageDataUrls s) \<le> 6 \<longrightarrow>
      length (imageDataUrls (fst (handleImagesSelected files s))) \<le> 6)
   \<and> (files = Some fs \<longrightarrow>
        imageDataUrls (fst (handleImagesSelected files s)) =
          (if list_ex readFails (filter isImage (take (6 - length (imageDataUrls s)) fs))
           then imageDataUrls s
           else imageDataUrls s @
             map dataUrl (filter isImage (take (6 - length (imageDataUrls s)) fs))))
   \<and> length (imageDataUrls (fst (handleImagesSelected files s))) \<le>
        length (imageDataUrls s) + (6 - length (imageDataUrls s))
   \<and> (files = None \<or> files = Some [] \<longrightarrow> handleImagesSelected files s = (s, []))
   \<and> length (imageDataUrls (removeImage idx s)) \<le> length (imageDataUrls s)
   \<and> length (imageDataUrls (fst (send_p1 wc br cm clk resp s w))) \<le> length (imageDataUrls s)"
proof -
  let ?cur = "imageDataUrls s"
  let ?k = "6 - length ?cur"
  have sel: "\<And>gs. files = Some gs \<Longrightarrow>
      imageDataUrls (fst (handleImagesSelected files s)) =
        (if list_ex readFails (filter isImage (take ?k gs)) then ?cur
         else ?cur @ map dataUrl (filter isImage (take ?k gs)))"
    by (simp add: handleImagesSelected_def Let_def selection_size readImages_result
        take_min_length)
  have len: "length (map dataUrl (filter isImage (take ?k gs))) \<le> ?k" for gs
  proof -
    have "length (filter isImage (take ?k gs)) \<le> length (take ?k gs)"
      by (rule length_filter_le)
    then show ?thesis by simp
  qed
  have grow: "length (imageDataUrls (fst (handleImagesSelected files s))) \<le> length ?cur + ?k"
  proof (cases files)
    case None
    then show ?thesis by (simp add: handleImagesSelected_def)
  next
    case (Some gs)
    show ?thesis using sel [OF Some] len [of gs] by (simp split: if_splits)
  qed
  have "length ?cur \<le> 6 \<longrightarrow> length (imageDataUrls (fst (handleImagesSelected files s))) \<le> 6"
    using grow by linarith
  moreover have "files = None \<or> files = Some [] \<longrightarrow> handleImagesSelected files s = (s, [])"
    by (auto simp: handleImagesSelected_def)
  ultimately show ?thesis
    using sel [of fs] grow removeImage_length [of idx s] send_p1_images [of wc br cm clk resp s w]
    by simp
qed


lemma test_file_facts:
  "isImage (test_file ''image/png'' u)" "\<not> isImage (test_file ''text/plain'' u)"
  "\<not> readFails (test_file t u)" "dataUrl (test_file t (c # cs)) = js (c # cs)"
  by (simp_all add: isImage_def startsWith_def test_file_def readFails_def dataUrl_def orElse_def
      js_def)

theorem images_at_most_six_witness:
  "imageDataUrls (fst (handleImagesSelected
      (Some [test_file ''image/png'' ''u6'', test_file ''text/plain'' ''u7'', test_file ''image/png'' ''u8''])
      (test_state\<lparr>imageDataUrls := [js ''u1'', js ''u2'', js ''u3'', js ''u4'', js ''u5'']\<rparr>))) =
   [js ''u1'', js ''u2'', js ''u3'', js ''u4'', js ''u5'', js ''u6'']"
  using images_at_most_six [of "test_state\<lparr>imageDataUrls := [js ''u1'', js ''u2'', js ''u3'', js ''u4'', js ''u5'']\<rparr>"
      "Some [test_file ''image/png'' ''u6'', test_file ''text/plain'' ''u7'', test_file ''image/png'' ''u8'']"
      "[test_file ''image/png'' ''u6'', test_file ''text/plain'' ''u7'', test_file ''image/png'' ''u8'']"]
  by (simp add: test_file_facts)

section \<open>Edit: a response that is not ok\<close>

text \<open>
  C6 (the code's behaviour). When the edit request's response is not ok, the handler
  shows the error and returns: the list keeps the optimistic truncation, but the in-flight
  flag stays set and \<open>editingId\<close> is not cleared. Both versions of the component.
\<close>

theorem edit_not_ok_stays_in_flight:
  assumes "truthy (threadId s)"
  shows "saveEdit_p1 wc cm m (EditNotOk err) s w =
           (s\<lparr>sending := True, messages := optimisticEdit (msg_id m) (editText s) (messages s)\<rparr>,
            w, [Alert (orElse err (js ''Failed to edit''))])
       \<and> saveEdit_p2 wc cm m (EditNotOk err) s w =
           (s\<lparr>sending := True, messages := optimisticEdit (msg_id m) (editText s) (messages s)\<rparr>,
            w, [Alert (orElse err (js ''Failed to edit''))])"
  using assms by (simp add: saveEdit_p1_def saveEdit_p2_def saveEdit_not_ok)

theorem edit_not_ok_stays_in_flight_witness:
  "sending (fst (saveEdit_p1 test_crypto test_modal (test_message ''1'' User ''a'') (EditNotOk None)
     (test_state\<lparr>messages := [test_message ''1'' User ''a''], editingId := Some (js ''1''),
        editText := js ''b''\<rparr>) test_world))
   \<and> editingId (fst (saveEdit_p1 test_crypto test_modal (test_message ''1'' User ''a'') (EditNotOk None)
     (test_state\<lparr>messages := [test_message ''1'' User ''a''], editingId := Some (js ''1''),
        editText := js ''b''\<rparr>) test_world)) = Some (js ''1'')"
  using edit_not_ok_stays_in_flight [of
      "test_state\<lparr>messages := [test_message ''1'' User ''a''], editingId := Some (js ''1''),
        editText := js ''b''\<rparr>" test_crypto test_modal "test_message ''1'' User ''a''" None test_world]
  by (simp add: test_state_def truthy_def js_Cons_ne)

section \<open>Encrypting and decrypting with the profile key\<close>

lemma btoa_units_nonempty: "bs \<noteq> [] \<Longrightarrow> btoa_units bs \<noteq> []"
  by (induction bs rule: btoa_units.induct) simp_all

lemma b64e_nonempty: "buf \<noteq> [] \<Longrightarrow> b64e buf \<noteq> []"
  by (simp add: b64e_def btoa_units_nonempty)

lemma getRandomValues_length: "length (fst (getRandomValues n w)) = n"
  by (simp add: getRandomValues_def)

lemma getRandomValues_storage: "storage (snd (getRandomValues n w)) = storage w"
  by (simp add: getRandomValues_def)

lemma ensureMasterKey_stored:
  assumes "truthy (companyId cm)" "chat_master_key (storage w) = Some k" "k \<noteq> []"
  shows "ensureMasterKey cm w = (Some k, w)"
  using assms by (simp add: ensureMasterKey_def truthy_def)

lemma ensureMasterKey_usable:
  assumes "truthy (companyId cm)" "validMasterKey w"
  shows "\<exists>k w0 raw. ensureMasterKey cm w = (Some k, w0) \<and> k \<noteq> []
    \<and> chat_master_key (storage w0) = Some k \<and> b64d (Some k) = Inr raw"
proof (cases "truthy (chat_master_key (storage w))")
  case True
  then obtain k where k: "chat_master_key (storage w) = Some k" "k \<noteq> []"
    by (cases "chat_master_key (storage w)") (simp_all add: truthy_def)
  from assms(2) k obtain raw where "b64d (Some k) = Inr raw"
    by (cases "b64d (Some k)") (simp_all add: validMasterKey_def)
  with k ensureMasterKey_stored [OF assms(1) k] show ?thesis by simp
next
  case False
  let ?raw = "fst (getRandomValues 32 w)"
  have "?raw \<noteq> []" using getRandomValues_length [of 32 w] by auto
  then have "b64e ?raw \<noteq> []" by (rule b64e_nonempty)
  moreover have "ensureMasterKey cm w = 
    (Some (b64e ?raw), setMasterKey (b64e ?raw) (snd (getRandomValues 32 w)))"
    using False assms(1) by (simp add: ensureMasterKey_def split_beta Let_def)
  moreover have "chat_master_key (storage (setMasterKey (b64e ?raw) (snd (getRandomValues 32 w)))) =
    Some (b64e ?raw)" by (simp add: setMasterKey_def)
  ultimately show ?thesis by (simp add: b64d_b64e)
qed

lemma encrypt_then_decrypt:
  assumes aead: "aead_correct wc" and tenant: "truthy (companyId cm)" and key: "validMasterKey w"
  shows "\<exists>enc w1. encryptWithProfile wc cm p w = (Inr enc, w1) \<and>
    fst (decryptWithProfile wc cm (Some (content_enc enc)) (Some (content_nonce enc)) w1) =
       Inr (Some (td_decode (te_encode p)))"
proof -
  from ensureMasterKey_usable [OF tenant key]
  obtain k w0 raw where emk: "ensureMasterKey cm w = (Some k, w0)" and k: "k \<noteq> []"
    and stored: "chat_master_key (storage w0) = Some k" and raw: "b64d (Some k) = Inr raw"
    by blast
  let ?key = "hkdf_sha256 wc raw mk_salt (te_encode (profileInfo cm (profileId cm)))"
  let ?iv = "fst (getRandomValues 12 w0)"
  let ?w1 = "snd (getRandomValues 12 w0)"
  let ?ct = "aes_gcm_encrypt wc ?key ?iv (te_encode p)"
  let ?enc = "\<lparr>content_enc = b64e ?ct, content_nonce = b64e ?iv, content_salt = b64e mk_salt\<rparr>"
  have derive: "deriveProfileKey wc cm (Some k) (profileId cm) = Inr ?key"
    by (simp add: deriveProfileKey_def raw)
  have enc: "encryptWithProfile wc cm p w = (Inr ?enc, ?w1)"
    by (simp add: encryptWithProfile_def emk derive split_beta)
  have "length ?ct = length (te_encode p) + 16" using aead by (simp add: aead_correct_def)
  then have "?ct \<noteq> []" by auto
  then have ct: "b64e ?ct \<noteq> []" by (rule b64e_nonempty)
  have "?iv \<noteq> []" using getRandomValues_length [of 12 w0] by auto
  then have iv: "b64e ?iv \<noteq> []" by (rule b64e_nonempty)
  have "chat_master_key (storage ?w1) = Some k" by (simp add: getRandomValues_storage stored)
  then have again: "ensureMasterKey cm ?w1 = (Some k, ?w1)"
    using tenant k by (intro ensureMasterKey_stored)
  have dec: "aes_gcm_decrypt wc ?key ?iv ?ct = Some (te_encode p)"
    using aead by (simp add: aead_correct_def)
  have "decryptWithProfile wc cm (Some (b64e ?ct)) (Some (b64e ?iv)) ?w1 =
       (Inr (Some (td_decode (te_encode p))), ?w1)"
    unfolding decryptWithProfile_def using ct iv
    by (simp add: truthy_def again derive b64d_b64e dec)
  then have "fst (decryptWithProfile wc cm (Some (content_enc ?enc)) (Some (content_nonce ?enc)) ?w1) =
       Inr (Some (td_decode (te_encode p)))" by simp
  with enc show ?thesis by (intro exI conjI)
qed

section \<open>The round trip of a message\<close>

lemma well_formed_below: "\<forall>u\<in>set us. u < 55296 \<Longrightarrow> well_formed us"
  by (induction us rule: well_formed.induct) (auto simp: is_high_def is_low_def)

lemma unat_js: "map unat (js s) = map of_char s"
proof -
  have "unat (of_nat (of_char c) :: 16 word) = of_char c" for c :: char
  proof -
    have "(of_char c :: nat) < 65536"
      using nat_of_char_less_256 [of c] by linarith
    then show ?thesis by (simp add: unat_of_nat)
  qed
  then show ?thesis by (simp add: js_def)
qed

lemma isWellFormed_js: "isWellFormed (js s)"
proof -
  have "(of_char c :: nat) < 55296" for c :: char
    using nat_of_char_less_256 [of c] by linarith
  then show ?thesis by (simp add: isWellFormed_def unat_js well_formed_below)
qed

lemma aead_correct_test: "aead_correct test_crypto"
  by (auto simp: aead_correct_def test_crypto_def test_tag_def)

lemma b64d_null: "b64d None = Inr [158, 233, 101]"
  by (simp add: b64d_def toDOMString_def js_def atob_units_def strip_padding_def
      ascii_whitespace_def b64idx_def)

lemma validMasterKey_test: "validMasterKey test_world"
  by (simp add: validMasterKey_def test_world_def b64d_null)

text \<open>
  C1 (as amended). With an AES-GCM that decrypts what it encrypts, a tenant context and a
  stored master key that decodes (or none, in which case one is generated), for every
  plaintext that is well-formed UTF-16 and does not begin with U+FEFF: \<open>encryptWithProfile\<close>
  returns a payload, and \<open>decryptWithProfile\<close> on its \<open>content_enc\<close> and
  \<open>content_nonce\<close> returns the plaintext.
\<close>

theorem decrypt_encrypt:
  assumes "aead_correct wc" and "truthy (companyId cm)" and "validMasterKey w"
    and "isWellFormed p" and "p = [] \<or> hd p \<noteq> 65279"
  shows "\<exists>enc w1. encryptWithProfile wc cm p w = (Inr enc, w1) \<and>
    fst (decryptWithProfile wc cm (Some (content_enc enc)) (Some (content_nonce enc)) w1) =
      Inr (Some p)"
  using encrypt_then_decrypt [OF assms(1-3), of p] td_decode_te_encode [OF assms(4,5)] by simp

theorem decrypt_encrypt_witness:
  "\<exists>enc w1. encryptWithProfile test_crypto test_modal (js ''hello'') test_world = (Inr enc, w1) \<and>
    fst (decryptWithProfile test_crypto test_modal (Some (content_enc enc)) (Some (content_nonce enc)) w1) =
      Inr (Some (js ''hello''))"
proof (rule decrypt_encrypt)
  show "aead_correct test_crypto" by (rule aead_correct_test)
  show "truthy (companyId test_modal)" by (simp add: test_modal_def truthy_def js_Cons_ne)
  show "validMasterKey test_world" by (rule validMasterKey_test)
  show "isWellFormed (js ''hello'')" by (rule isWellFormed_js)
  show "js ''hello'' = [] \<or> hd (js ''hello'') \<noteq> 65279" by (simp add: js_simps)
qed

text \<open>
  C1 as stated fails for a plaintext that begins with U+FEFF, which \<open>TextDecoder\<close>
  drops as a byte order mark (the same chain returns the empty string for the string
  U+FEFF), and for one with an unpaired surrogate, which \<open>TextEncoder\<close> replaces by
  U+FFFD.
\<close>

lemma bom_lost: "td_decode (te_encode [65279]) = []"
  by (simp add: te_encode_def td_decode_def utf8_bytes_def is_high_def is_low_def utf8_init_def)

lemma surrogate_replaced: "td_decode (te_encode [55296]) = [65533]"
  by (simp add: te_encode_def td_decode_def utf8_bytes_def is_high_def is_low_def utf8_init_def
      utf16_units_def)

theorem decrypt_encrypt_bom_counterexample:
  "fst (decryptWithProfile test_crypto test_modal
     (Some (content_enc (test_encrypted [65279]))) (Some (content_nonce (test_encrypted [65279])))
     (test_world_after [65279]))
   \<noteq> Inr (Some [65279])
   \<and> fst (decryptWithProfile test_crypto test_modal
     (Some (content_enc (test_encrypted [55296]))) (Some (content_nonce (test_encrypted [55296])))
     (test_world_after [55296]))
   \<noteq> Inr (Some [55296])"
proof -
  have tenant: "truthy (companyId test_modal)" by (simp add: test_modal_def truthy_def js_Cons_ne)
  from encrypt_then_decrypt [OF aead_correct_test tenant validMasterKey_test, of "[65279]"]
  have "fst (decryptWithProfile test_crypto test_modal
     (Some (content_enc (test_encrypted [65279]))) (Some (content_nonce (test_encrypted [65279])))
     (test_world_after [65279])) \<noteq> Inr (Some [65279])"
    by (auto simp: bom_lost test_encrypted_def test_world_after_def)
  moreover from encrypt_then_decrypt [OF aead_correct_test tenant validMasterKey_test, of "[55296]"]
  have "fst (decryptWithProfile test_crypto test_modal
     (Some (content_enc (test_encrypted [55296]))) (Some (content_nonce (test_encrypted [55296])))
     (test_world_after [55296])) \<noteq> Inr (Some [55296])"
    by (auto simp: surrogate_replaced test_encrypted_def test_world_after_def)
  ultimately show ?thesis by simp
qed

section \<open>No tenant context\<close>

lemma profileInfo_default:
  "\<not> truthy (companyId cm) \<Longrightarrow> profileInfo cm pid = js ''company:default|profile:'' @ pid"
  by (auto simp: profileInfo_def orElse_def truthy_def js_def split: option.splits)

text \<open>
  C8 (the code's behaviour). Without a tenant context \<open>ensureMasterKey\<close> returns
  \<open>null\<close>, and nothing checks it: \<open>deriveProfileKey\<close> decodes the string "null" that
  \<open>atob\<close> makes of it to the three bytes 9E E9 65 and derives a key from them under the
  context \<open>company:default|profile:<pid>\<close>, and \<open>encryptWithProfile\<close> encrypts with
  that key and returns a payload.
\<close>

theorem encrypts_without_tenant:
  assumes "\<not> truthy (companyId cm)"
  shows "ensureMasterKey cm w = (None, w)
    \<and> deriveProfileKey wc cm None pid =
        Inr (hkdf_sha256 wc [158, 233, 101] mk_salt (te_encode (js ''company:default|profile:'' @ pid)))
    \<and> encryptWithProfile wc cm text w =
        (Inr \<lparr>content_enc = b64e (aes_gcm_encrypt wc
                 (hkdf_sha256 wc [158, 233, 101] mk_salt
                    (te_encode (js ''company:default|profile:'' @ profileId cm)))
                 (fst (getRandomValues 12 w)) (te_encode text)),
              content_nonce = b64e (fst (getRandomValues 12 w)),
              content_salt = b64e mk_salt\<rparr>,
         snd (getRandomValues 12 w))"
proof -
  have emk: "ensureMasterKey cm w = (None, w)"
    using assms by (simp add: ensureMasterKey_def)
  have derive: "deriveProfileKey wc cm None pid =
      Inr (hkdf_sha256 wc [158, 233, 101] mk_salt (te_encode (js ''company:default|profile:'' @ pid)))"
    for pid
    using assms by (simp add: deriveProfileKey_def b64d_null profileInfo_default)
  show ?thesis
    by (simp add: emk derive encryptWithProfile_def split_beta)
qed

theorem encrypts_without_tenant_witness:
  "fst (encryptWithProfile test_crypto \<lparr>profileId = js ''p1'', companyId = None\<rparr> (js ''hi'')
     (test_world\<lparr>storage := \<lparr>auth_token = None, company_id = None, chat_master_key = None\<rparr>\<rparr>)) =
   Inr \<lparr>content_enc = b64e (aes_gcm_encrypt test_crypto
           (hkdf_sha256 test_crypto [158, 233, 101] mk_salt
              (te_encode (js ''company:default|profile:'' @ js ''p1'')))
           (fst (getRandomValues 12 test_world)) (te_encode (js ''hi''))),
        content_nonce = b64e (fst (getRandomValues 12 test_world)),
        content_salt = b64e mk_salt\<rparr>"
  using encrypts_without_tenant [of "\<lparr>profileId = js ''p1'', companyId = None\<rparr>"
      "test_world\<lparr>storage := \<lparr>auth_token = None, company_id = None, chat_master_key = None\<rparr>\<rparr>"
      test_crypto "js ''p1''" "js ''hi''"]
  by (simp add: truthy_def getRandomValues_def test_world_def)

section \<open>The content of a server row\<close>

lemma cachedContent_cached: "cachedContent cache rid [] = firstPresent [cached cache rid]"
  by (auto simp: cachedContent_def cached_def truthy_def orElse_def split: option.splits)

lemma decryptWithProfile_absent:
  "\<not> (truthy enc \<and> truthy nonce) \<Longrightarrow> decryptWithProfile wc cm enc nonce w = (Inr None, w)"
  by (auto simp: decryptWithProfile_def)

lemma truthy_None: "\<not> truthy None"
  by (simp add: truthy_def)

lemma orElse_present: "truthy c \<Longrightarrow> orElse c [] \<noteq> []"
  by (auto simp: truthy_def orElse_def split: option.splits)

lemma orElse_absent: "\<not> truthy c \<Longrightarrow> orElse c [] = []"
  by (auto simp: truthy_def orElse_def split: option.splits)

lemma editRowText_p1_order:
  "editRowText_p1 wc cm cache r w =
     (case decryptWithProfile wc cm (row_content_enc r) (row_content_nonce r) w of
        (Inl e, w1) \<Rightarrow> (Inl e, w1)
      | (Inr dec, w1) \<Rightarrow> (Inr (firstPresent [dec, row_content r, cached cache (row_id r)]), w1))"
proof (cases "truthy (row_content_enc r) \<and> truthy (row_content_nonce r)")
  case False
  then have "editRowText_p1 wc cm cache r w =
      (Inr (if orElse (row_content r) [] = [] then cachedContent cache (row_id r) []
            else orElse (row_content r) []), w)"
    by (auto simp: editRowText_p1_def)
  with False show ?thesis
    by (cases "truthy (row_content r)")
      (simp_all add: decryptWithProfile_absent cachedContent_cached truthy_None
        orElse_present orElse_absent)
next
  case True
  obtain res w1 where d: "decryptWithProfile wc cm (row_content_enc r) (row_content_nonce r) w = (res, w1)"
    by (cases "decryptWithProfile wc cm (row_content_enc r) (row_content_nonce r) w")
  show ?thesis
  proof (cases res)
    case (Inl e)
    with True d show ?thesis by (simp add: editRowText_p1_def decryptRow_def)
  next
    case (Inr dec)
    with True d show ?thesis
      by (cases "truthy dec"; cases "truthy (row_content r)")
        (simp_all add: editRowText_p1_def decryptRow_def cachedContent_cached
          orElse_present orElse_absent)
  qed
qed

lemma editRowText_p2_order:
  "editRowText_p2 wc cm cache r w =
     (if truthy (row_content r) then (Inr (firstPresent [row_content r]), w)
      else
        (case decryptWithProfile wc cm (row_content_enc r) (row_content_nonce r) w of
           (Inl e, w1) \<Rightarrow> (Inl e, w1)
         | (Inr dec, w1) \<Rightarrow>
             (Inr (firstPresent [row_content r, dec, cached cache (row_id r)]), w1)))"
proof (cases "truthy (row_content r)")
  case True
  then show ?thesis by (simp add: editRowText_p2_def orElse_present)
next
  case absent: False
  show ?thesis
  proof (cases "truthy (row_content_enc r) \<and> truthy (row_content_nonce r)")
    case False
    then have "editRowText_p2 wc cm cache r w =
        (Inr (if orElse (row_content r) [] = [] then cachedContent cache (row_id r) []
              else orElse (row_content r) []), w)"
      by (auto simp: editRowText_p2_def Let_def)
    with False absent show ?thesis
      by (simp add: decryptWithProfile_absent cachedContent_cached truthy_None orElse_absent)
  next
    case True
    obtain res w1 where d: "decryptWithProfile wc cm (row_content_enc r) (row_content_nonce r) w = (res, w1)"
      by (cases "decryptWithProfile wc cm (row_content_enc r) (row_content_nonce r) w")
    show ?thesis
    proof (cases res)
      case (Inl e)
      with True absent d show ?thesis by (simp add: editRowText_p2_def decryptRow_def orElse_absent)
    next
      case (Inr dec)
      with True absent d show ?thesis
        by (cases "truthy dec")
          (simp_all add: editRowText_p2_def decryptRow_def cachedContent_cached
            orElse_present orElse_absent)
    qed
  qed
qed



lemma b64d_empty: "b64d (Some []) = Inr []"
  by (simp add: b64d_def toDOMString_def atob_units_def strip_padding_def)









lemma truthy_js: "truthy (Some (js (c # cs)))"
  by (simp add: truthy_def js_Cons_ne)







section \<open>History load and edit reconciliation\<close>

lemma historyRowText_p1_order:
  "historyRowText_p1 wc cm r w =
     (case decryptWithProfile wc cm (row_content_enc r) (row_content_nonce r) w of
        (Inl e, w1) \<Rightarrow> (Inl e, w1)
      | (Inr dec, w1) \<Rightarrow> (Inr (firstPresent [dec, row_content r]), w1))"
proof (cases "truthy (row_content_enc r) \<and> truthy (row_content_nonce r)")
  case False
  then have "historyRowText_p1 wc cm r w = (Inr (orElse (row_content r) []), w)"
    by (auto simp: historyRowText_p1_def)
  with False show ?thesis
    by (cases "truthy (row_content r)")
      (simp_all add: decryptWithProfile_absent truthy_None orElse_absent)
next
  case True
  obtain res w1 where d: "decryptWithProfile wc cm (row_content_enc r) (row_content_nonce r) w = (res, w1)"
    by (cases "decryptWithProfile wc cm (row_content_enc r) (row_content_nonce r) w")
  show ?thesis
  proof (cases res)
    case (Inl e)
    with True d show ?thesis by (simp add: historyRowText_p1_def decryptRow_def)
  next
    case (Inr dec)
    with True d show ?thesis
      by (cases "truthy dec"; cases "truthy (row_content r)")
        (simp_all add: historyRowText_p1_def decryptRow_def orElse_present orElse_absent)
  qed
qed

lemma historyRowText_p2_order:
  "historyRowText_p2 wc cm r w =
     (if truthy (row_content r) then (Inr (firstPresent [row_content r]), w)
      else
        (case decryptWithProfile wc cm (row_content_enc r) (row_content_nonce r) w of
           (Inl e, w1) \<Rightarrow> (Inl e, w1)
         | (Inr dec, w1) \<Rightarrow> (Inr (firstPresent [row_content r, dec]), w1)))"
proof (cases "truthy (row_content r)")
  case True
  then show ?thesis by (simp add: historyRowText_p2_def orElse_present)
next
  case absent: False
  show ?thesis
  proof (cases "truthy (row_content_enc r) \<and> truthy (row_content_nonce r)")
    case False
    then have "historyRowText_p2 wc cm r w = (Inr (orElse (row_content r) []), w)"
      by (auto simp: historyRowText_p2_def Let_def)
    with False absent show ?thesis
      by (simp add: decryptWithProfile_absent truthy_None orElse_absent)
  next
    case True
    obtain res w1 where d: "decryptWithProfile wc cm (row_content_enc r) (row_content_nonce r) w = (res, w1)"
      by (cases "decryptWithProfile wc cm (row_content_enc r) (row_content_nonce r) w")
    show ?thesis
    proof (cases res)
      case (Inl e)
      with True absent d show ?thesis
        by (simp add: historyRowText_p2_def decryptRow_def orElse_absent)
    next
      case (Inr dec)
      with True absent d show ?thesis
        by (cases "truthy dec")
          (simp_all add: historyRowText_p2_def decryptRow_def orElse_present orElse_absent)
    qed
  qed
qed

lemma firstPresent_snoc:
  "firstPresent (cs @ [c]) = (if firstPresent cs = [] then firstPresent [c] else firstPresent cs)"
  by (induction cs) (simp_all add: orElse_present)

lemma firstPresent_snoc2:
  "firstPresent [a, b, c] = (if firstPresent [a, b] = [] then firstPresent [c] else firstPresent [a, b])"
  using firstPresent_snoc [of "[a, b]" c] by simp

text \<open>
  C3 (as amended). Within each version of the component, edit reconciliation resolves a
  row as history load does and, when that yields no content, falls back to the locally
  cached content for the row's id; history load has no such fallback. The two agree on
  every row when the cache is empty.
\<close>

theorem edit_is_history_then_cache:
  "editRowText_p1 wc cm cache r w =
     (case historyRowText_p1 wc cm r w of
        (Inl e, w1) \<Rightarrow> (Inl e, w1)
      | (Inr text, w1) \<Rightarrow>
          (Inr (if text = [] then firstPresent [cached cache (row_id r)] else text), w1))
   \<and> editRowText_p2 wc cm cache r w =
     (case historyRowText_p2 wc cm r w of
        (Inl e, w1) \<Rightarrow> (Inl e, w1)
      | (Inr text, w1) \<Rightarrow>
          (Inr (if text = [] then firstPresent [cached cache (row_id r)] else text), w1))
   \<and> editRowText_p1 wc cm [] r w = historyRowText_p1 wc cm r w
   \<and> editRowText_p2 wc cm [] r w = historyRowText_p2 wc cm r w"
proof -
  have none: "firstPresent [cached [] (row_id r)] = []"
    by (simp add: cached_def truthy_None)
  have p1: "editRowText_p1 wc cm cache r w =
     (case historyRowText_p1 wc cm r w of
        (Inl e, w1) \<Rightarrow> (Inl e, w1)
      | (Inr text, w1) \<Rightarrow>
          (Inr (if text = [] then firstPresent [cached cache (row_id r)] else text), w1))"
    for cache
    unfolding editRowText_p1_order historyRowText_p1_order firstPresent_snoc2
    by (simp split: prod.splits sum.splits)
  have p2: "editRowText_p2 wc cm cache r w =
     (case historyRowText_p2 wc cm r w of
        (Inl e, w1) \<Rightarrow> (Inl e, w1)
      | (Inr text, w1) \<Rightarrow>
          (Inr (if text = [] then firstPresent [cached cache (row_id r)] else text), w1))"
    for cache
    unfolding editRowText_p2_order historyRowText_p2_order firstPresent_snoc2
    by (simp add: orElse_present split: prod.splits sum.splits)
  have "editRowText_p1 wc cm [] r w = historyRowText_p1 wc cm r w"
    unfolding p1 [of "[]"] none by (simp split: prod.splits sum.splits)
  moreover have "editRowText_p2 wc cm [] r w = historyRowText_p2 wc cm r w"
    unfolding p2 [of "[]"] none by (simp split: prod.splits sum.splits)
  ultimately show ?thesis using p1 [of cache] p2 [of cache] by simp
qed

theorem edit_is_history_then_cache_witness:
  "fst (editRowText_p1 test_crypto test_modal [test_message ''1'' User ''old'']
      (test_row ''1'' (Some (js ''plain'')) None) test_world) = Inr (js ''plain'')
   \<and> fst (historyRowText_p1 test_crypto test_modal
      (test_row ''1'' (Some (js ''plain'')) None) test_world) = Inr (js ''plain'')"
  using edit_is_history_then_cache [of test_crypto test_modal "[test_message ''1'' User ''old'']"
      "test_row ''1'' (Some (js ''plain'')) None" test_world]
  by (simp add: historyRowText_p1_order test_row_def truthy_js truthy_None
      decryptWithProfile_absent orElse_def js_Cons_ne)

text \<open>
  C3 as stated fails for a row with neither plaintext nor ciphertext whose id has cached
  content: edit reconciliation displays the cached content, history load the empty string.
\<close>

theorem edit_uses_cache_counterexample:
  "fst (editRowText_p1 test_crypto test_modal [test_message ''1'' User ''old'']
      (test_row ''1'' None None) test_world)
   \<noteq> fst (historyRowText_p1 test_crypto test_modal (test_row ''1'' None None) test_world)"
  by (simp add: editRowText_p1_order historyRowText_p1_order test_row_def truthy_js truthy_None
      decryptWithProfile_absent cached_def test_message_def orElse_def js_Cons_ne)

section \<open>The key derivation context\<close>


















section \<open>Key import\<close>

lemma truthy_orNull: "truthy (orNull v) = truthy v"
  by (simp add: orNull_def truthy_None)

lemma orNull_present: "truthy v \<Longrightarrow> orNull v = v"
  by (simp add: orNull_def)

lemma importKey_result:
  "importKey wc obj pass w =
     (if \<not> truthy pass then (ImportCancelled, w)
      else
        (case unwrapped wc obj pass of
           None \<Rightarrow> (BadPassphraseOrCorrupt, w)
         | Some raw \<Rightarrow>
             if truthy (bk_cid obj) \<and> truthy (company_id (storage w))
                \<and> bk_cid obj \<noteq> company_id (storage w)
             then (TenantMismatch, w)
             else (Imported, setMasterKey (b64e raw) w)))"
proof -
  have cond: "(truthy (orNull (bk_cid obj)) \<and> truthy (orNull (company_id (storage w)))
        \<and> orNull (bk_cid obj) \<noteq> orNull (company_id (storage w))) =
      (truthy (bk_cid obj) \<and> truthy (company_id (storage w))
        \<and> bk_cid obj \<noteq> company_id (storage w))"
    by (auto simp: truthy_orNull orNull_present)
  show ?thesis
    unfolding importKey_def unwrapped_def Let_def cond
    by (simp split: sum.splits option.splits)
qed

lemma setMasterKey_changes: "setMasterKey k w \<noteq> w \<or> chat_master_key (storage w) = Some k"
  by (cases w; cases "storage w") (auto simp: setMasterKey_def)


lemma getRandomValues_company: "company_id (storage (snd (getRandomValues n w))) = company_id (storage w)"
  by (simp add: getRandomValues_def)

lemma unwrapped_backupOf:
  "aead_correct wc \<Longrightarrow> unwrapped wc (backupOf wc pass raw w1) pass = Some raw"
  by (simp add: unwrapped_def backupOf_def b64d_b64e aead_correct_def)

lemma exportKey_result:
  assumes aead: "aead_correct wc" and pass: "truthy pass" and key: "validMasterKey w"
  shows "\<exists>bk w' raw. exportKey wc pass w = (Inr (Some bk), w')
    \<and> bk_cid bk = orNull (company_id (storage w)) \<and> unwrapped wc bk pass = Some raw"
proof (cases "truthy (chat_master_key (storage w))")
  case True
  with key obtain raw where raw: "b64d (chat_master_key (storage w)) = Inr raw"
    by (cases "b64d (chat_master_key (storage w))") (simp_all add: validMasterKey_def)
  have "exportKey wc pass w =
      (Inr (Some (backupOf wc pass raw w)), snd (getRandomValues 12 (snd (getRandomValues 16 w))))"
    using True pass raw
    by (simp add: exportKey_def Let_def split_beta backupOf_def getRandomValues_company)
  moreover have "bk_cid (backupOf wc pass raw w) = orNull (company_id (storage w))"
    by (simp add: backupOf_def)
  ultimately show ?thesis using unwrapped_backupOf [OF aead] by blast
next
  case False
  let ?raw = "fst (getRandomValues 32 w)"
  let ?w1 = "setMasterKey (b64e ?raw) (snd (getRandomValues 32 w))"
  have cid: "company_id (storage ?w1) = company_id (storage w)"
    by (simp add: setMasterKey_def getRandomValues_company)
  have "exportKey wc pass w =
      (Inr (Some (backupOf wc pass ?raw ?w1)),
       snd (getRandomValues 12 (snd (getRandomValues 16 ?w1))))"
    using False pass
    by (simp add: exportKey_def Let_def split_beta backupOf_def getRandomValues_company b64d_b64e)
  moreover have "bk_cid (backupOf wc pass ?raw ?w1) = orNull (company_id (storage w))"
    by (simp add: backupOf_def cid)
  ultimately show ?thesis using unwrapped_backupOf [OF aead] by blast
qed

text \<open>
  C7 (as amended). When the backup's tenant id and the current tenant id are both present
  and differ, the import leaves the store as it was, and with a passphrase that unwraps
  the key it returns \<open>TenantMismatch\<close>; in particular a backup exported under tenant A
  and imported with the same passphrase under tenant B does. The key is installed only when
  the import succeeds, and it succeeds only when the tenant ids are equal, or the current
  tenant id is unset, or the backup carries no tenant id.
\<close>

theorem import_tenant_check:
  "(truthy (bk_cid obj) \<and> truthy (company_id (storage w)) \<and> bk_cid obj \<noteq> company_id (storage w)
      \<longrightarrow> snd (importKey wc obj pass w) = w
        \<and> (truthy pass \<and> unwrapped wc obj pass \<noteq> None
             \<longrightarrow> fst (importKey wc obj pass w) = TenantMismatch))
   \<and> (fst (importKey wc obj pass w) = Imported
      \<longrightarrow> bk_cid obj = company_id (storage w) \<or> \<not> truthy (company_id (storage w))
          \<or> \<not> truthy (bk_cid obj))
   \<and> (snd (importKey wc obj pass w) \<noteq> w \<longrightarrow> fst (importKey wc obj pass w) = Imported)
   \<and> (aead_correct wc \<and> truthy pass \<and> validMasterKey w0
       \<and> truthy (company_id (storage w0)) \<and> truthy (company_id (storage w))
       \<and> company_id (storage w0) \<noteq> company_id (storage w)
      \<longrightarrow> (\<exists>bk w'. exportKey wc pass w0 = (Inr (Some bk), w')
            \<and> importKey wc bk pass w = (TenantMismatch, w)))"
proof -
  have a: "truthy (bk_cid obj) \<and> truthy (company_id (storage w)) \<and> bk_cid obj \<noteq> company_id (storage w)
      \<longrightarrow> snd (importKey wc obj pass w) = w
        \<and> (truthy pass \<and> unwrapped wc obj pass \<noteq> None
             \<longrightarrow> fst (importKey wc obj pass w) = TenantMismatch)"
    by (auto simp: importKey_result split: option.splits)
  have b: "fst (importKey wc obj pass w) = Imported
      \<longrightarrow> bk_cid obj = company_id (storage w) \<or> \<not> truthy (company_id (storage w))
          \<or> \<not> truthy (bk_cid obj)"
    by (auto simp: importKey_result split: option.splits if_splits)
  have c: "snd (importKey wc obj pass w) \<noteq> w \<longrightarrow> fst (importKey wc obj pass w) = Imported"
    by (auto simp: importKey_result split: option.splits if_splits)
  have d: "\<exists>bk w'. exportKey wc pass w0 = (Inr (Some bk), w')
      \<and> importKey wc bk pass w = (TenantMismatch, w)"
    if "aead_correct wc" "truthy pass" "validMasterKey w0"
      "truthy (company_id (storage w0))" "truthy (company_id (storage w))"
      "company_id (storage w0) \<noteq> company_id (storage w)"
  proof -
    from exportKey_result [OF that(1-3)] obtain bk w' raw where
      ex: "exportKey wc pass w0 = (Inr (Some bk), w')"
      and "bk_cid bk = orNull (company_id (storage w0))" "unwrapped wc bk pass = Some raw"
      by blast
    with that(2,4-6) have "importKey wc bk pass w = (TenantMismatch, w)"
      by (simp add: importKey_result orNull_present)
    with ex show ?thesis by blast
  qed
  from a b c d show ?thesis by blast
qed

theorem import_tenant_check_witness:
  "\<exists>bk w'. exportKey test_crypto (Some (js ''pw'')) test_world = (Inr (Some bk), w')
     \<and> importKey test_crypto bk (Some (js ''pw'')) test_world_globex =
         (TenantMismatch, test_world_globex)"
proof -
  have "truthy (company_id (storage test_world))"
    "truthy (company_id (storage test_world_globex))"
    by (simp_all add: test_world_def test_world_globex_def truthy_js)
  moreover have "company_id (storage test_world) \<noteq> company_id (storage test_world_globex)"
    by (simp add: test_world_def test_world_globex_def js_simps)
  ultimately have "aead_correct test_crypto \<and> truthy (Some (js ''pw'')) \<and> validMasterKey test_world
       \<and> truthy (company_id (storage test_world)) \<and> truthy (company_id (storage test_world_globex))
       \<and> company_id (storage test_world) \<noteq> company_id (storage test_world_globex)"
    using aead_correct_test validMasterKey_test truthy_js [of "CHR ''p''" "''w''"] by blast
  with import_tenant_check [of "\<lparr>bk_v = 1, bk_cid = None, bk_salt = [], bk_iv = [], bk_data = []\<rparr>"
      test_world_globex test_crypto "Some (js ''pw'')" test_world]
  show ?thesis by blast
qed

text \<open>
  C7 as stated fails for a backup without a tenant id (one exported while no company id was
  stored): imported under a tenant, with the right passphrase, its key is installed,
  though the tenant ids do not match and the current tenant id is set.
\<close>

theorem import_without_tenant_counterexample:
  "fst (importKey test_crypto (test_backup test_world_logged_out) (Some (js ''pw'')) test_world) =
     Imported
   \<and> chat_master_key (storage (snd (importKey test_crypto (test_backup test_world_logged_out)
        (Some (js ''pw'')) test_world))) \<noteq> chat_master_key (storage test_world)
   \<and> bk_cid (test_backup test_world_logged_out) \<noteq> company_id (storage test_world)
   \<and> truthy (company_id (storage test_world))"
proof -
  have "validMasterKey test_world_logged_out"
    by (simp add: validMasterKey_def test_world_logged_out_def b64d_null)
  from exportKey_result [OF aead_correct_test truthy_js this, of "CHR ''p''" "''w''"]
  obtain bk w' raw where "exportKey test_crypto (Some (js ''pw'')) test_world_logged_out =
      (Inr (Some bk), w')"
    "bk_cid bk = orNull (company_id (storage test_world_logged_out))"
    "unwrapped test_crypto bk (Some (js ''pw'')) = Some raw"
    by blast
  then have "test_backup test_world_logged_out = bk" "bk_cid bk = None"
    "unwrapped test_crypto bk (Some (js ''pw'')) = Some raw"
    by (simp_all add: test_backup_def test_world_logged_out_def orNull_def truthy_None)
  then show ?thesis
    by (simp add: importKey_result truthy_js truthy_None setMasterKey_def test_world_def)
qed


end
